theory Spec2Isabelle
  imports Main "HOL-Library.Multiset"
begin

section \<open>JavaScript values and objects\<close>

text \<open>
  The values that reach the code from a configuration object or from the environment:
  \<^verbatim>\<open>undefined\<close>, \<^verbatim>\<open>null\<close>, booleans, integral numbers and strings. Strings are lists of
  8-bit code units. \<open>truthy\<close> is the test JavaScript applies in \<^verbatim>\<open>v ? a : b\<close>,
  \<^verbatim>\<open>if (v)\<close> and \<^verbatim>\<open>v || w\<close>; \<open>toString\<close> is the conversion applied by \<^verbatim>\<open>v + ' '\<close> and by a
  template literal.
\<close>

datatype jsval = JUndefined | JNull | JBool bool | JNum int | JStr string

fun truthy :: "jsval \<Rightarrow> bool" where
  "truthy JUndefined = False"
| "truthy JNull = False"
| "truthy (JBool b) = b"
| "truthy (JNum n) = (n \<noteq> 0)"
| "truthy (JStr s) = (s \<noteq> [])"

fun string_of_nat :: "nat \<Rightarrow> string" where
  "string_of_nat n =
     (if n < 10 then [char_of (48 + n)]
      else string_of_nat (n div 10) @ [char_of (48 + n mod 10)])"

definition string_of_int :: "int \<Rightarrow> string" where
  "string_of_int i = (if i < 0 then CHR ''-'' # string_of_nat (nat (- i)) else string_of_nat (nat i))"

fun toString :: "jsval \<Rightarrow> string" where
  "toString JUndefined = ''undefined''"
| "toString JNull = ''null''"
| "toString (JBool b) = (if b then ''true'' else ''false'')"
| "toString (JNum n) = string_of_int n"
| "toString (JStr s) = s"

text \<open>
  An object is the list of its own properties in insertion order (keys that are array
  indices, which JavaScript lists first, do not occur among capabilities). Reading a
  property that is not there gives \<^verbatim>\<open>undefined\<close>; writing one replaces the value in place or
  appends the key. \<open>Object_assign target source\<close> is \<^verbatim>\<open>Object.assign(target, source)\<close>: every
  property of the source is written to the target, in the source's order.
\<close>

type_synonym object = "(string \<times> jsval) list"

definition get_prop :: "object \<Rightarrow> string \<Rightarrow> jsval" where
  "get_prop obj k = (case map_of obj k of None \<Rightarrow> JUndefined | Some v \<Rightarrow> v)"

fun set_prop :: "object \<Rightarrow> string \<Rightarrow> jsval \<Rightarrow> object" where
  "set_prop [] k v = [(k, v)]"
| "set_prop ((k', v') # ps) k v =
     (if k' = k then (k, v) # ps else (k', v') # set_prop ps k v)"

definition Object_assign :: "object \<Rightarrow> object \<Rightarrow> object" where
  "Object_assign target source = foldl (\<lambda>t (k, v). set_prop t k v) target source"

text \<open>\<^verbatim>\<open>String.prototype.trim\<close>: white space and line terminators are removed at both ends.\<close>

definition is_whitespace :: "char \<Rightarrow> bool" where
  "is_whitespace c = (c \<in> set [CHR 0x09, CHR 0x0A, CHR 0x0B, CHR 0x0C, CHR 0x0D, CHR 0x20, CHR 0xA0])"

definition trim :: "string \<Rightarrow> string" where
  "trim s = rev (dropWhile is_whitespace (rev (dropWhile is_whitespace s)))"

section \<open>Platform names and platform configuration\<close>

text \<open>The two environment variables read into \<^verbatim>\<open>PLATFORM_DEFAULTS\<close>; an unset variable is
  \<^verbatim>\<open>undefined\<close>.\<close>

record env =
  TRAVIS_JOB_ID :: "string option"
  TRAVIS_JOB_NUMBER :: "string option"

definition env_val :: "string option \<Rightarrow> jsval" where
  "env_val x = (case x of None \<Rightarrow> JUndefined | Some s \<Rightarrow> JStr s)"

definition PLATFORM_DEFAULTS :: "env \<Rightarrow> object" where
  "PLATFORM_DEFAULTS e =
     [(''maxDuration'', JNum 1800),
      (''commandTimeout'', JNum 300),
      (''idleTimeout'', JNum 300),
      (''build'', env_val (TRAVIS_JOB_ID e)),
      (''tunnelIdentifier'', env_val (TRAVIS_JOB_NUMBER e))]"

definition DEFAULT_TEST_NAME :: string where
  "DEFAULT_TEST_NAME = ''qunit tests''"

text \<open>One line \<^verbatim>\<open>platformName += platform.f ? platform.f + ' ' : ''\<close> of \<^verbatim>\<open>processPlatform\<close>.\<close>

definition name_part :: "object \<Rightarrow> string \<Rightarrow> string" where
  "name_part platform f =
     (if truthy (get_prop platform f) then toString (get_prop platform f) @ '' '' else [])"

definition platformName :: "object \<Rightarrow> string" where
  "platformName platform =
     (let n = [];
          n = n @ name_part platform ''deviceName'';
          n = n @ name_part platform ''platform'';
          n = n @ name_part platform ''platformName'';
          n = n @ name_part platform ''platformVersion'';
          n = n @ name_part platform ''browserName'';
          n = n @ name_part platform ''version''
      in n)"

definition processPlatform :: "env \<Rightarrow> string \<Rightarrow> object \<Rightarrow> object" where
  "processPlatform e testName platform =
     Object_assign
       (Object_assign (Object_assign [] (PLATFORM_DEFAULTS e)) platform)
       [(''name'', JStr (testName @ '' ('' @ trim (platformName platform) @ '')''))]"

text \<open>The six naming fields in the order in which \<^verbatim>\<open>processPlatform\<close> reads them, and the
  fields among them that the code's test \<^verbatim>\<open>platform.f ? ... : ''\<close> lets through.\<close>

definition name_fields :: "string list" where
  "name_fields =
     [''deviceName'', ''platform'', ''platformName'', ''platformVersion'', ''browserName'', ''version'']"

definition present_fields :: "object \<Rightarrow> string list" where
  "present_fields platform = filter (\<lambda>f. truthy (get_prop platform f)) name_fields"

section \<open>The pass predicate of the result scraper\<close>

text \<open>
  \<^verbatim>\<open>passed === total && failed === "0" && (total !== '0' || allowZeroAssertions)\<close>
  on the values that \<^verbatim>\<open>[passed, failed, total]\<close> takes out of the array of the texts read
  from the page: an element that is not there is \<^verbatim>\<open>undefined\<close>. On the values of \<open>jsval\<close> the
  strict equality \<^verbatim>\<open>===\<close> is equality: two strings are equal when their code units are.
\<close>

definition element :: "string list \<Rightarrow> nat \<Rightarrow> jsval" where
  "element texts k = (if k < length texts then JStr (texts ! k) else JUndefined)"

definition allTestsPassed :: "bool \<Rightarrow> jsval \<Rightarrow> jsval \<Rightarrow> jsval \<Rightarrow> bool" where
  "allTestsPassed allow passed failed totl =
     (passed = totl \<and> failed = JStr ''0'' \<and> (totl \<noteq> JStr ''0'' \<or> allow))"

section \<open>The run as a state machine\<close>

text \<open>
  The repository holds the program in two revisions that differ in a few places:
  \<^verbatim>\<open>src/index.js\<close>, and the first program text of \<^verbatim>\<open>src/unnamed/part_000\<close>, which adds
  the stale-element retry, resets the timer variables to \<^verbatim>\<open>null\<close> after clearing them and
  names the mode option \<^verbatim>\<open>runInParallel\<close> instead of \<^verbatim>\<open>runInSeries\<close>. Every definition
  below that depends on the revision takes it as its first argument. The second program
  text of \<^verbatim>\<open>part_000\<close> is an earlier revision (tasks in series only, one heartbeat per task,
  a name without parentheses) that no claim cites; it is not modelled.

  A run is single-threaded: it is the sequence of the callbacks that the remote services
  and the timers call. The state holds what the callbacks read and write, and what they
  have asked of the outside: the calls that have not been answered yet and the timers
  that are pending. Both kinds of timer are set with the delay \<^verbatim>\<open>statusPollingInterval\<close>;
  the state keeps the pending timers, not the time.
\<close>

datatype revision = Index_js | Part_000

text \<open>Errors handed to callbacks: the faults reported by the remote services, and the
  module's own constant \<^verbatim>\<open>RETRY_ERROR\<close>, which no service can return.\<close>

datatype fault = StaleElementReference | Failure string

datatype error = RETRY_ERROR | External fault

datatype uncaught = ReferenceError_setTImeout

definition MAX_RETRIES :: nat where
  "MAX_RETRIES = 10"

definition statusPollingInterval :: nat where
  "statusPollingInterval = 10000"

text \<open>What is written to standard output, one constructor per \<^verbatim>\<open>console.log\<close> or
  \<^verbatim>\<open>process.stdout.write\<close> of the source.\<close>

datatype message =
    KeepAliveMark
  | PollMark
  | InitError nat fault
  | JobUrl nat nat
  | ShowJobError nat fault
  | JobError nat jsval
  | WaitError nat fault
  | Retrying nat
  | ResultsError nat error
  | Results nat bool jsval jsval
  | AllCompleted bool

datatype timer = KeepAliveTimer | JobTimer nat

datatype mode = Series | Parallel

text \<open>The series of three reads of \<^verbatim>\<open>checkTestResults\<close>: waiting for the element of the
  next selector, or reading its text, with the texts read so far; \<open>Abandoned\<close> is a series
  whose current read has returned without calling the series' callback.\<close>

datatype scraper = Idle | Waiting "string list" | Reading "string list" | Abandoned

text \<open>The closure of one task made by \<^verbatim>\<open>makeTest\<close>, with the calls it has pending at the
  remote services and the calls it has made to \<^verbatim>\<open>driver.sauceJobStatus\<close>, \<^verbatim>\<open>driver.quit\<close>
  and to its completion callback \<^verbatim>\<open>cb\<close>. \<^verbatim>\<open>driver.get(url)\<close> is called without a callback and
  leaves nothing in the state.\<close>

record test =
  url :: string
  platform :: object
  started :: bool
  initPending :: bool
  sessionId :: "nat option"
  jobTimeoutId :: "nat option"
  showJobPending :: bool
  scraper :: scraper
  sauceJobStatus :: "bool list"
  quits :: nat
  cbCalls :: "error option list"

text \<open>The module's variables, the task list, the pending timers, the output written and the fate
  of the process. A timer handle is never falsy.\<close>

record run =
  allPlatformsPassed :: bool
  allowZeroAssertions :: bool
  keepAliveTimeoutId :: "nat option"
  retryCount :: nat
  tests :: "test list"
  mode :: mode
  timers :: "(nat \<times> timer) list"
  nextTimer :: nat
  stdout :: "message list"
  completed :: bool
  exitCode :: "nat option"
  uncaught :: "uncaught option"

definition console_log :: "message \<Rightarrow> run \<Rightarrow> run" where
  "console_log x s = s\<lparr>stdout := stdout s @ [x]\<rparr>"

definition setTimeout :: "timer \<Rightarrow> run \<Rightarrow> run" where
  "setTimeout k s = s\<lparr>timers := timers s @ [(nextTimer s, k)], nextTimer := Suc (nextTimer s)\<rparr>"

definition clearTimeout :: "nat \<Rightarrow> run \<Rightarrow> run" where
  "clearTimeout h s = s\<lparr>timers := filter (\<lambda>(h', k). h' \<noteq> h) (timers s)\<rparr>"

definition upd_test :: "nat \<Rightarrow> (test \<Rightarrow> test) \<Rightarrow> run \<Rightarrow> run" where
  "upd_test i f s = s\<lparr>tests := (tests s)[i := f (tests s ! i)]\<rparr>"

definition initKeepAlive :: "run \<Rightarrow> run" where
  "initKeepAlive s =
     (let s = console_log KeepAliveMark s;
          h = nextTimer s;
          s = setTimeout KeepAliveTimer s
      in s\<lparr>keepAliveTimeoutId := Some h\<rparr>)"

text \<open>The function returned by \<^verbatim>\<open>makeTest\<close>, up to its call of \<^verbatim>\<open>driver.init\<close>.\<close>

definition makeTest :: "nat \<Rightarrow> run \<Rightarrow> run" where
  "makeTest i s =
     (let s = (if keepAliveTimeoutId s = None then initKeepAlive s else s)
      in upd_test i (\<lambda>t. t\<lparr>started := True, initPending := True\<rparr>) s)"

text \<open>The final callback \<^verbatim>\<open>complete\<close> of \<^verbatim>\<open>module.exports\<close>; the task runner calls it at
  most once. Its \<^verbatim>\<open>driver.quit\<close> answers later, see \<open>QuitReply\<close>.\<close>

definition complete :: "run \<Rightarrow> run" where
  "complete s =
     (if completed s then s
      else (console_log (AllCompleted (allPlatformsPassed s)) s)\<lparr>completed := True\<rparr>)"

text \<open>
  The completion callback that the task runner of the \<^verbatim>\<open>async\<close> library hands to task \<open>i\<close>.
  The library is not part of the repository; this is its contract: an error ends the run
  with the final callback; in a series the next task is called when the current one
  reports; in parallel the final callback follows the last report. Every call is recorded;
  the runner acts on the first call of a task only.
\<close>

definition cb :: "nat \<Rightarrow> error option \<Rightarrow> run \<Rightarrow> run" where
  "cb i err s =
     (let first = (cbCalls (tests s ! i) = []);
          s = upd_test i (\<lambda>t. t\<lparr>cbCalls := cbCalls t @ [err]\<rparr>) s
      in if \<not> first then s
         else if err \<noteq> None then complete s
         else (case mode s of
                 Series \<Rightarrow> if Suc i < length (tests s) then makeTest (Suc i) s else complete s
               | Parallel \<Rightarrow> if list_all (\<lambda>t. cbCalls t \<noteq> []) (tests s) then complete s else s))"

definition testComplete :: "revision \<Rightarrow> nat \<Rightarrow> bool \<Rightarrow> run \<Rightarrow> run" where
  "testComplete r i status s =
     (let s = (case jobTimeoutId (tests s ! i) of
                 None \<Rightarrow> s
               | Some h \<Rightarrow>
                   let s = clearTimeout h s
                   in if r = Part_000 then upd_test i (\<lambda>t. t\<lparr>jobTimeoutId := None\<rparr>) s else s);
          s = upd_test i (\<lambda>t. t\<lparr>sauceJobStatus := sauceJobStatus t @ [status]\<rparr>) s;
          s = upd_test i (\<lambda>t. t\<lparr>quits := Suc (quits t)\<rparr>) s;
          s = s\<lparr>allPlatformsPassed := (allPlatformsPassed s \<and> status)\<rparr>
      in cb i None s)"

definition pollSauceLabsStatus :: "nat \<Rightarrow> run \<Rightarrow> run" where
  "pollSauceLabsStatus i s = upd_test i (\<lambda>t. t\<lparr>showJobPending := True\<rparr>) s"

text \<open>The callback of \<^verbatim>\<open>account.showJob\<close>: the query failed (\<open>Inl\<close>), or it returned a job
  whose \<^verbatim>\<open>error\<close> field is the given value.\<close>

definition showJob_callback :: "revision \<Rightarrow> nat \<Rightarrow> fault + jsval \<Rightarrow> run \<Rightarrow> run" where
  "showJob_callback r i reply s =
     (case reply of
        Inl err \<Rightarrow> console_log (ShowJobError i err) s
      | Inr job_error \<Rightarrow>
          if truthy job_error then testComplete r i False (console_log (JobError i job_error) s)
          else
            (let s = console_log PollMark s;
                 h = nextTimer s;
                 s = setTimeout (JobTimer i) s
             in upd_test i (\<lambda>t. t\<lparr>jobTimeoutId := Some h\<rparr>) s))"

definition checkTestResults :: "nat \<Rightarrow> run \<Rightarrow> run" where
  "checkTestResults i s = upd_test i (\<lambda>t. t\<lparr>scraper := Waiting []\<rparr>) s"

text \<open>The callback that \<^verbatim>\<open>checkTestResults\<close> gives to \<^verbatim>\<open>series\<close>, called with the error of
  the read that failed, or with no error and the three texts. In \<^verbatim>\<open>part_000\<close> the retry
  branch counts the retry, writes its line and then calls \<^verbatim>\<open>setTImeout\<close>, a name that is
  not defined: the call raises a reference error, which nothing catches.\<close>

definition checkTestResults_callback ::
  "revision \<Rightarrow> nat \<Rightarrow> error option \<Rightarrow> string list \<Rightarrow> run \<Rightarrow> run" where
  "checkTestResults_callback r i err texts s =
     (let s = upd_test i (\<lambda>t. t\<lparr>scraper := Idle\<rparr>) s
      in case err of
           Some e \<Rightarrow>
             if r = Part_000 \<and> e = RETRY_ERROR then
               (let old = retryCount s;
                    s = s\<lparr>retryCount := Suc old\<rparr>
                in if old < MAX_RETRIES
                   then (console_log (Retrying (retryCount s)) s)\<lparr>uncaught := Some ReferenceError_setTImeout\<rparr>
                   else testComplete r i False (console_log (ResultsError i e) s))
             else testComplete r i False (console_log (ResultsError i e) s)
         | None \<Rightarrow>
             (let passed = element texts 0; failed = element texts 1; totl = element texts 2;
                  ok = allTestsPassed (allowZeroAssertions s) passed failed totl
              in testComplete r i ok (console_log (Results i ok passed totl) s)))"

text \<open>The callbacks of \<^verbatim>\<open>driver.waitForElementsByCssSelector\<close> and of \<^verbatim>\<open>driver.text\<close> inside
  \<^verbatim>\<open>getElementText\<close>, for a series that has read \<open>texts\<close> so far.\<close>

definition waitForElements_callback ::
  "revision \<Rightarrow> nat \<Rightarrow> string list \<Rightarrow> fault + nat \<Rightarrow> run \<Rightarrow> run" where
  "waitForElements_callback r i texts reply s =
     (case reply of
        Inl err \<Rightarrow>
          checkTestResults_callback r i (Some (External err)) texts
            (if r = Part_000 then console_log (WaitError i err) s else s)
      | Inr el \<Rightarrow> upd_test i (\<lambda>t. t\<lparr>scraper := Reading texts\<rparr>) s)"

definition text_callback ::
  "revision \<Rightarrow> nat \<Rightarrow> string list \<Rightarrow> fault + string \<Rightarrow> run \<Rightarrow> run" where
  "text_callback r i texts reply s =
     (case reply of
        Inl err \<Rightarrow>
          if r = Part_000 \<and> err = StaleElementReference
          then cb i (Some RETRY_ERROR) (upd_test i (\<lambda>t. t\<lparr>scraper := Abandoned\<rparr>) s)
          else checkTestResults_callback r i (Some (External err)) texts s
      | Inr text \<Rightarrow>
          if length (texts @ [text]) < 3
          then upd_test i (\<lambda>t. t\<lparr>scraper := Waiting (texts @ [text])\<rparr>) s
          else checkTestResults_callback r i None (texts @ [text]) s)"

text \<open>The callback of \<^verbatim>\<open>driver.init\<close>.\<close>

definition init_callback :: "revision \<Rightarrow> nat \<Rightarrow> fault + nat \<Rightarrow> run \<Rightarrow> run" where
  "init_callback r i reply s =
     (case reply of
        Inl err \<Rightarrow> testComplete r i False (console_log (InitError i err) s)
      | Inr sid \<Rightarrow>
          (let s = (case keepAliveTimeoutId s of
                      None \<Rightarrow> s
                    | Some h \<Rightarrow>
                        let s = clearTimeout h s
                        in if r = Part_000 then s\<lparr>keepAliveTimeoutId := None\<rparr> else s);
               s = console_log (JobUrl i sid) s;
               s = upd_test i (\<lambda>t. t\<lparr>sessionId := Some sid\<rparr>) s;
               s = pollSauceLabsStatus i s;
               s = checkTestResults i s
           in s))"

text \<open>
  The events that drive a run: the answers of the remote services to the calls a task has
  pending, a timer that fires, and the answer to the \<^verbatim>\<open>driver.quit\<close> of \<^verbatim>\<open>complete\<close>, whose
  callback ends the process. An event that answers nothing pending changes nothing, and
  nothing happens after the process has ended or an exception has escaped a callback.
\<close>

datatype event =
    InitReply nat "fault + nat"
  | ShowJobReply nat "fault + jsval"
  | WaitReply nat "fault + nat"
  | TextReply nat "fault + string"
  | TimerFires nat
  | QuitReply

text \<open>A pending timer fires: it leaves the table and its function is called, \<^verbatim>\<open>initKeepAlive\<close>
  or \<^verbatim>\<open>pollSauceLabsStatus\<close>.\<close>

definition fire :: "nat \<Rightarrow> run \<Rightarrow> run" where
  "fire h s =
     (case map_of (timers s) h of
        None \<Rightarrow> s
      | Some KeepAliveTimer \<Rightarrow> initKeepAlive (clearTimeout h s)
      | Some (JobTimer i) \<Rightarrow> pollSauceLabsStatus i (clearTimeout h s))"

fun handle :: "revision \<Rightarrow> event \<Rightarrow> run \<Rightarrow> run" where
  "handle r (InitReply i reply) s =
     (if i < length (tests s) \<and> initPending (tests s ! i)
      then init_callback r i reply (upd_test i (\<lambda>t. t\<lparr>initPending := False\<rparr>) s) else s)"
| "handle r (ShowJobReply i reply) s =
     (if i < length (tests s) \<and> showJobPending (tests s ! i)
      then showJob_callback r i reply (upd_test i (\<lambda>t. t\<lparr>showJobPending := False\<rparr>) s) else s)"
| "handle r (WaitReply i reply) s =
     (if i < length (tests s)
      then (case scraper (tests s ! i) of
              Waiting texts \<Rightarrow> waitForElements_callback r i texts reply s
            | _ \<Rightarrow> s)
      else s)"
| "handle r (TextReply i reply) s =
     (if i < length (tests s)
      then (case scraper (tests s ! i) of
              Reading texts \<Rightarrow> text_callback r i texts reply s
            | _ \<Rightarrow> s)
      else s)"
| "handle r (TimerFires h) s = fire h s"
| "handle r QuitReply s =
     (if completed s then s\<lparr>exitCode := Some (if allPlatformsPassed s then 0 else 1)\<rparr> else s)"

definition step :: "revision \<Rightarrow> event \<Rightarrow> run \<Rightarrow> run" where
  "step r ev s = (if exitCode s \<noteq> None \<or> uncaught s \<noteq> None then s else handle r ev s)"

fun exec :: "revision \<Rightarrow> event list \<Rightarrow> run \<Rightarrow> run" where
  "exec r [] s = s"
| "exec r (ev # evs) s = exec r evs (step r ev s)"

section \<open>The entry function\<close>

record urlObj =
  urlObj_url :: string
  urlObj_name :: jsval
  urlObj_platforms :: "object list option"

record config =
  urls :: "urlObj list"
  platforms :: "object list"
  zeroAssertionsPass :: "bool option"
  runInParallel :: "bool option"
  runInSeries :: "bool option"

definition new_test :: "string \<Rightarrow> object \<Rightarrow> test" where
  "new_test u p =
     \<lparr>url = u, platform = p, started = False, initPending = False, sessionId = None,
      jobTimeoutId = None, showJobPending = False, scraper = Idle, sauceJobStatus = [],
      quits = 0, cbCalls = []\<rparr>"

definition make_tests :: "env \<Rightarrow> config \<Rightarrow> test list" where
  "make_tests e cfg =
     concat (map (\<lambda>u.
       let testName = (if truthy (urlObj_name u) then toString (urlObj_name u) else DEFAULT_TEST_NAME);
           urlPlatforms = (case urlObj_platforms u of Some ps \<Rightarrow> ps | None \<Rightarrow> platforms cfg)
       in map (\<lambda>p. new_test (urlObj_url u) (processPlatform e testName p)) urlPlatforms) (urls cfg))"

text \<open>The module's variables as the module initialises them.\<close>

definition module_state :: run where
  "module_state =
     \<lparr>allPlatformsPassed = True, allowZeroAssertions = True, keepAliveTimeoutId = None,
      retryCount = 0, tests = [], mode = Series, timers = [], nextTimer = 0, stdout = [],
      completed = False, exitCode = None, uncaught = None\<rparr>"

text \<open>\<^verbatim>\<open>parallel(tests, complete)\<close> calls every task at once, in list order;
  \<^verbatim>\<open>series(tests, complete)\<close> calls the first one. Both call \<^verbatim>\<open>complete\<close> at once for an
  empty list.\<close>

definition parallel :: "run \<Rightarrow> run" where
  "parallel s =
     (let s = s\<lparr>mode := Parallel\<rparr>
      in if tests s = [] then complete s
         else foldl (\<lambda>s i. makeTest i s) s [0..<length (tests s)])"

definition series :: "run \<Rightarrow> run" where
  "series s =
     (let s = s\<lparr>mode := Series\<rparr>
      in if tests s = [] then complete s else makeTest 0 s)"

definition module_exports :: "revision \<Rightarrow> env \<Rightarrow> config \<Rightarrow> run \<Rightarrow> run" where
  "module_exports r e cfg s =
     (let s = s\<lparr>allowZeroAssertions :=
                 (case zeroAssertionsPass cfg of None \<Rightarrow> allowZeroAssertions s | Some b \<Rightarrow> b)\<rparr>;
          s = s\<lparr>tests := make_tests e cfg\<rparr>
      in case r of
           Index_js \<Rightarrow> if runInSeries cfg = Some True then series s else parallel s
         | Part_000 \<Rightarrow> if runInParallel cfg = Some True then parallel s else series s)"

section \<open>Observations on a run\<close>

text \<open>The outcomes reported so far, one per call of \<^verbatim>\<open>testComplete\<close>, listed by task.\<close>

definition outcomes :: "run \<Rightarrow> bool list" where
  "outcomes s = concat (map sauceJobStatus (tests s))"

text \<open>The global status is the conjunction of the outcomes reported, and an exit code, once
  set, is the one the status gives.\<close>

definition aggregate_inv :: "run \<Rightarrow> bool" where
  "aggregate_inv s = ((allPlatformsPassed s = list_all id (outcomes s)) \<and>
     (case exitCode s of None \<Rightarrow> True | Some c \<Rightarrow> c = (if allPlatformsPassed s then 0 else 1)))"

text \<open>The heartbeat timers that are pending, and whether some task has obtained a session.\<close>

definition heartbeats :: "run \<Rightarrow> (nat \<times> timer) list" where
  "heartbeats s = filter (\<lambda>(h, k). k = KeepAliveTimer) (timers s)"

definition session_established :: "run \<Rightarrow> bool" where
  "session_established s = list_ex (\<lambda>t. sessionId t \<noteq> None) (tests s)"

text \<open>
  Every pending heartbeat timer is the one \<^verbatim>\<open>keepAliveTimeoutId\<close> names, and there is at
  most one. In \<^verbatim>\<open>src/index.js\<close> the variable is never reset: it is set as soon as a task has
  called \<^verbatim>\<open>driver.init\<close>, and no heartbeat timer is pending once a task has a session.
\<close>

definition heartbeat_inv :: "revision \<Rightarrow> run \<Rightarrow> bool" where
  "heartbeat_inv r s =
     ((\<forall>x \<in> set (heartbeats s). keepAliveTimeoutId s = Some (fst x)) \<and>
      length (heartbeats s) \<le> 1 \<and>
      (r = Index_js \<longrightarrow>
         (\<forall>j < length (tests s).
             initPending (tests s ! j) \<or> sessionId (tests s ! j) \<noteq> None \<longrightarrow>
             keepAliveTimeoutId s \<noteq> None) \<and>
         (\<forall>j < length (tests s). sessionId (tests s ! j) \<noteq> None \<longrightarrow> heartbeats s = [])))"

text \<open>In a series, a task is started only after the task before it has called its
  completion callback.\<close>

definition series_inv :: "run \<Rightarrow> bool" where
  "series_inv s =
     (mode s = Series \<longrightarrow>
        (\<forall>j. Suc j < length (tests s) \<and> started (tests s ! Suc j) \<longrightarrow> cbCalls (tests s ! j) \<noteq> []))"

text \<open>The job status poller of task \<open>i\<close> is armed when a query is in flight or a timer will
  issue the next one.\<close>

definition poller_armed :: "nat \<Rightarrow> run \<Rightarrow> bool" where
  "poller_armed i s =
     (showJobPending (tests s ! i) \<or> list_ex (\<lambda>(h, k). k = JobTimer i) (timers s))"

section \<open>Example inputs\<close>

text \<open>An environment, a configuration with one test page and two platforms, the six
  answers to one full reading of the counters, and two runs in which the first platform
  passes and the second fails.\<close>

definition example_env :: env where
  "example_env = \<lparr>TRAVIS_JOB_ID = Some ''42'', TRAVIS_JOB_NUMBER = Some ''42.1''\<rparr>"

definition example_config :: "bool option \<Rightarrow> bool option \<Rightarrow> bool option \<Rightarrow> config" where
  "example_config zero par ser =
     \<lparr>urls = [\<lparr>urlObj_url = ''http://localhost:3000/test/test.html'', urlObj_name = JUndefined,
               urlObj_platforms = None\<rparr>],
      platforms = [[(''browserName'', JStr ''chrome'')],
                   [(''browserName'', JStr ''firefox''), (''version'', JStr ''50'')]],
      zeroAssertionsPass = zero, runInParallel = par, runInSeries = ser\<rparr>"

definition example_reads :: "nat \<Rightarrow> string \<Rightarrow> string \<Rightarrow> string \<Rightarrow> event list" where
  "example_reads i passed failed totl =
     [WaitReply i (Inr 0), TextReply i (Inr passed), WaitReply i (Inr 1), TextReply i (Inr failed),
      WaitReply i (Inr 2), TextReply i (Inr totl)]"

definition example_parallel_run :: "event list" where
  "example_parallel_run =
     [InitReply 1 (Inr 11), InitReply 0 (Inr 10)] @ example_reads 1 ''4'' ''1'' ''5'' @
     example_reads 0 ''5'' ''0'' ''5'' @ [QuitReply]"

definition example_series_run :: "event list" where
  "example_series_run =
     [InitReply 0 (Inr 10)] @ example_reads 0 ''5'' ''0'' ''5'' @
     [InitReply 1 (Inr 11)] @ example_reads 1 ''4'' ''1'' ''5'' @ [QuitReply]"

definition example_platform :: object where
  "example_platform =
     [(''version'', JStr ''9''), (''browserName'', JStr ''Safari''), (''platform'', JStr ''''),
      (''deviceName'', JStr ''iPhone''), (''idleTimeout'', JNum 90)]"

section \<open>Objects and \<^verbatim>\<open>Object.assign\<close>\<close>

lemma map_of_set_prop: "map_of (set_prop obj k v) = (map_of obj)(k \<mapsto> v)"
  by (induction obj) (auto simp: fun_eq_iff)

lemma keys_set_prop:
  "map fst (set_prop obj k v) = (if k \<in> set (map fst obj) then map fst obj else map fst obj @ [k])"
  by (induction obj) force+

lemma set_prop_same: "map_of obj k = Some v \<Longrightarrow> set_prop obj k v = obj"
  by (induction obj) (auto split: if_splits)

lemma set_prop_fresh: "k \<notin> set (map fst obj) \<Longrightarrow> set_prop obj k v = obj @ [(k, v)]"
  by (induction obj) auto

lemma Object_assign_Nil [simp]: "Object_assign t [] = t"
  by (simp add: Object_assign_def)

lemma Object_assign_Cons [simp]:
  "Object_assign t ((k, v) # src) = Object_assign (set_prop t k v) src"
  by (simp add: Object_assign_def)

lemma Object_assign_append:
  "Object_assign t (xs @ ys) = Object_assign (Object_assign t xs) ys"
  by (simp add: Object_assign_def)

lemma keys_Object_assign:
  "\<exists>ys. map fst (Object_assign t src) = map fst t @ ys"
proof (induction src arbitrary: t)
  case Nil
  then show ?case by simp
next
  case (Cons a src)
  obtain k v where a: "a = (k, v)" by (cases a)
  from Cons.IH [of "set_prop t k v"] obtain ys
    where "map fst (Object_assign (set_prop t k v) src) = map fst (set_prop t k v) @ ys" by blast
  then show ?case unfolding a by (auto simp: keys_set_prop)
qed

lemma distinct_set_prop:
  "distinct (map fst obj) \<Longrightarrow> distinct (map fst (set_prop obj k v))"
  by (simp add: keys_set_prop)

lemma distinct_Object_assign:
  "distinct (map fst t) \<Longrightarrow> distinct (map fst (Object_assign t src))"
proof (induction src arbitrary: t)
  case Nil
  then show ?case by simp
next
  case (Cons a src)
  then show ?case by (cases a) (simp add: distinct_set_prop)
qed

lemma map_of_Object_assign:
  "distinct (map fst src) \<Longrightarrow> map_of (Object_assign t src) = map_of t ++ map_of src"
proof (induction src arbitrary: t)
  case Nil
  then show ?case by simp
next
  case (Cons a src)
  obtain k v where a: "a = (k, v)" by (cases a)
  from Cons.prems have k: "k \<notin> dom (map_of src)" and d: "distinct (map fst src)"
    by (auto simp: a dom_map_of_conv_image_fst)
  have "map_of (Object_assign t (a # src)) = (map_of t)(k \<mapsto> v) ++ map_of src"
    unfolding a Object_assign_Cons Cons.IH [OF d] map_of_set_prop ..
  also have "\<dots> = map_of t ++ map_of (a # src)"
    using k by (simp add: a map_add_upd_left)
  finally show ?case .
qed

lemma Object_assign_keep_head:
  "k \<notin> set (map fst src) \<Longrightarrow> Object_assign ((k, v) # t) src = (k, v) # Object_assign t src"
proof (induction src arbitrary: t)
  case Nil
  then show ?case by simp
next
  case (Cons a src)
  then show ?case by (cases a) auto
qed

lemma Object_assign_same_keys:
  "map fst t = map fst t' \<Longrightarrow> distinct (map fst t') \<Longrightarrow> Object_assign t t' = t'"
proof (induction t' arbitrary: t)
  case Nil
  then show ?case by simp
next
  case (Cons a t')
  obtain k v where a: "a = (k, v)" by (cases a)
  from Cons.prems obtain v0 t0 where t: "t = (k, v0) # t0" and keys: "map fst t0 = map fst t'"
    by (cases t) (auto simp: a)
  from Cons.prems have k: "k \<notin> set (map fst t')" and d: "distinct (map fst t')"
    by (auto simp: a)
  have "Object_assign t (a # t') = Object_assign ((k, v) # t0) t'"
    by (simp add: a t)
  also have "\<dots> = (k, v) # Object_assign t0 t'"
    using k by (rule Object_assign_keep_head)
  also have "\<dots> = a # t'"
    using Cons.IH [OF keys d] by (simp add: a)
  finally show ?case .
qed

lemma Object_assign_fresh:
  "distinct (map fst (t @ src)) \<Longrightarrow> Object_assign t src = t @ src"
proof (induction src arbitrary: t)
  case Nil
  then show ?case by simp
next
  case (Cons a src)
  obtain k v where a: "a = (k, v)" by (cases a)
  from Cons.prems have k: "k \<notin> set (map fst t)" by (auto simp: a)
  from Cons.prems have "distinct (map fst ((t @ [(k, v)]) @ src))" by (auto simp: a)
  from Cons.IH [OF this] show ?case using k by (simp add: a set_prop_fresh)
qed

lemma Object_assign_extension:
  assumes keys: "map fst x = map fst t @ ys" and d: "distinct (map fst x)"
  shows "Object_assign t x = x"
proof -
  let ?n = "length t"
  have x: "x = take ?n x @ drop ?n x" by simp
  have k1: "map fst t = map fst (take ?n x)"
    using keys by (simp add: take_map [symmetric])
  have d1: "distinct (map fst (take ?n x))"
    using d by (metis x distinct_append map_append)
  have "Object_assign t x = Object_assign (Object_assign t (take ?n x)) (drop ?n x)"
    by (metis x Object_assign_append)
  also have "\<dots> = Object_assign (take ?n x) (drop ?n x)"
    by (simp add: Object_assign_same_keys [OF k1 d1])
  also have "\<dots> = take ?n x @ drop ?n x"
    using d by (intro Object_assign_fresh) simp
  finally show ?thesis by simp
qed

section \<open>The platform name and the merged configuration\<close>

lemma keys_PLATFORM_DEFAULTS:
  "map fst (PLATFORM_DEFAULTS e) =
     [''maxDuration'', ''commandTimeout'', ''idleTimeout'', ''build'', ''tunnelIdentifier'']"
  by (simp add: PLATFORM_DEFAULTS_def)

lemma Object_assign_PLATFORM_DEFAULTS:
  "Object_assign [] (PLATFORM_DEFAULTS e) = PLATFORM_DEFAULTS e"
  using Object_assign_fresh [of "[]" "PLATFORM_DEFAULTS e"] by (simp add: keys_PLATFORM_DEFAULTS)

lemma processPlatform_eq:
  "processPlatform e t p =
     set_prop (Object_assign (PLATFORM_DEFAULTS e) p) ''name''
       (JStr (t @ '' ('' @ trim (platformName p) @ '')''))"
  by (simp add: processPlatform_def Object_assign_PLATFORM_DEFAULTS)

lemma platformName_present_fields:
  "platformName p = concat (map (\<lambda>f. toString (get_prop p f) @ '' '') (present_fields p))"
  by (simp add: platformName_def name_part_def present_fields_def name_fields_def)

lemma map_of_PLATFORM_DEFAULTS_name_fields:
  "f \<in> set name_fields \<Longrightarrow> map_of (PLATFORM_DEFAULTS e) f = None"
  by (auto simp: name_fields_def PLATFORM_DEFAULTS_def)

lemma get_prop_processPlatform_field:
  assumes "distinct (map fst p)" and "f \<in> set name_fields"
  shows "get_prop (processPlatform e t p) f = get_prop p f"
proof -
  from assms(2) have "f \<noteq> ''name''" by (auto simp: name_fields_def)
  then have "map_of (processPlatform e t p) f = (map_of (PLATFORM_DEFAULTS e) ++ map_of p) f"
    by (simp add: processPlatform_eq map_of_set_prop map_of_Object_assign [OF assms(1)])
  also have "\<dots> = map_of p f"
    using map_of_PLATFORM_DEFAULTS_name_fields [OF assms(2), of e]
    by (simp add: map_add_def split: option.splits)
  finally show ?thesis by (simp add: get_prop_def)
qed

lemma platformName_processPlatform:
  assumes "distinct (map fst p)"
  shows "platformName (processPlatform e t p) = platformName p"
  by (simp add: platformName_def name_part_def get_prop_processPlatform_field [OF assms] name_fields_def)

text \<open>
  Claim C8. The \<^verbatim>\<open>name\<close> that \<^verbatim>\<open>processPlatform\<close> computes is the test name, a space and,
  in parentheses, the trimmed concatenation of the naming fields that are present, each
  followed by one space, in the order deviceName, platform, platformName, platformVersion,
  browserName, version. A field is present when the code's own test \<^verbatim>\<open>platform.f ? ... : ''\<close>
  lets it through, that is when its value is truthy; an absent field leaves no trace. The
  order in which the descriptor lists its properties does not matter: any reordering of a
  descriptor gives the same name.
\<close>

theorem processPlatform_name:
  "get_prop (processPlatform e testName p) ''name'' =
     JStr (testName @ '' ('' @
           trim (concat (map (\<lambda>f. toString (get_prop p f) @ '' '') (present_fields p))) @ '')'')
   \<and> (distinct (map fst p) \<and> mset p' = mset p \<longrightarrow>
        get_prop (processPlatform e testName p') ''name'' = get_prop (processPlatform e testName p) ''name'')"
proof -
  have name: "get_prop (processPlatform e testName q) ''name'' =
      JStr (testName @ '' ('' @ trim (platformName q) @ '')'')" for q
    by (simp add: processPlatform_eq get_prop_def map_of_set_prop)
  have "platformName p' = platformName p" if d: "distinct (map fst p)" and m: "mset p' = mset p"
  proof -
    have "mset (map fst p') = mset (map fst p)" using m by (metis mset_map)
    then have d': "distinct (map fst p')" using d by (metis mset_eq_imp_distinct_iff)
    have "set p' = set p" using m by (metis set_mset_mset)
    then have "map_of p' = map_of p" using d d' by (simp add: map_of_inject_set)
    then show ?thesis by (simp add: platformName_def name_part_def get_prop_def)
  qed
  then show ?thesis by (simp add: name platformName_present_fields [symmetric])
qed

text \<open>The theorem at a descriptor that lists its fields in another order and holds an empty
  \<^verbatim>\<open>platform\<close>, and at the same descriptor reversed.\<close>

theorem processPlatform_name_witness:
  "distinct (map fst example_platform) \<and> mset (rev example_platform) = mset example_platform \<and>
   present_fields example_platform = [''deviceName'', ''browserName'', ''version''] \<and>
   get_prop (processPlatform example_env ''qunit tests'' example_platform) ''name'' =
     JStr ''qunit tests (iPhone Safari 9)'' \<and>
   get_prop (processPlatform example_env ''qunit tests'' (rev example_platform)) ''name'' =
     JStr ''qunit tests (iPhone Safari 9)''"
proof -
  have d: "distinct (map fst example_platform)" by code_simp
  have m: "mset (rev example_platform) = mset example_platform" by simp
  have p: "present_fields example_platform = [''deviceName'', ''browserName'', ''version'']"
    by code_simp
  have v: "JStr (''qunit tests'' @ '' ('' @
      trim (concat (map (\<lambda>f. toString (get_prop example_platform f) @ '' '')
        [''deviceName'', ''browserName'', ''version''])) @ '')'') = JStr ''qunit tests (iPhone Safari 9)''"
    by code_simp
  from processPlatform_name [of example_env "''qunit tests''" example_platform "rev example_platform"]
  have n: "get_prop (processPlatform example_env ''qunit tests'' example_platform) ''name'' =
      JStr ''qunit tests (iPhone Safari 9)''"
    and r: "get_prop (processPlatform example_env ''qunit tests'' (rev example_platform)) ''name'' =
      get_prop (processPlatform example_env ''qunit tests'' example_platform) ''name''"
    using d m by (simp_all only: p v)
  from d m p n r show ?thesis by (simp only:)
qed

text \<open>
  Claim C9. Merging is idempotent: for every environment, test name and descriptor (an
  object, so its keys are distinct), \<^verbatim>\<open>processPlatform\<close> applied to its own result gives that
  result again, property for property and in the same order.
\<close>

theorem processPlatform_idempotent:
  assumes "distinct (map fst p)"
  shows "processPlatform e testName (processPlatform e testName p) = processPlatform e testName p"
proof -
  let ?v = "JStr (testName @ '' ('' @ trim (platformName p) @ '')'')"
  let ?A = "Object_assign (PLATFORM_DEFAULTS e) p"
  let ?R = "set_prop ?A ''name'' ?v"
  have R: "processPlatform e testName p = ?R" by (rule processPlatform_eq)
  have dD: "distinct (map fst (PLATFORM_DEFAULTS e))" by (simp add: keys_PLATFORM_DEFAULTS)
  have dR: "distinct (map fst ?R)"
    by (intro distinct_set_prop distinct_Object_assign dD)
  obtain ys where "map fst ?A = map fst (PLATFORM_DEFAULTS e) @ ys"
    using keys_Object_assign by blast
  then have "\<exists>zs. map fst ?R = map fst (PLATFORM_DEFAULTS e) @ zs"
    by (simp add: keys_set_prop)
  then obtain zs where kR: "map fst ?R = map fst (PLATFORM_DEFAULTS e) @ zs" ..
  have absorb: "Object_assign (PLATFORM_DEFAULTS e) ?R = ?R"
    using kR dR by (rule Object_assign_extension)
  have pn: "platformName ?R = platformName p"
    using platformName_processPlatform [OF assms, of e testName] by (simp add: R)
  have "processPlatform e testName ?R = set_prop ?R ''name'' ?v"
    by (simp only: processPlatform_eq [of e testName ?R] absorb pn)
  also have "\<dots> = ?R"
    by (rule set_prop_same) (simp add: map_of_set_prop)
  finally show ?thesis by (simp only: R)
qed

text \<open>The theorem at the example descriptor, with the merged object written out.\<close>

theorem processPlatform_idempotent_witness:
  "distinct (map fst example_platform) \<and>
   processPlatform example_env ''qunit tests'' (processPlatform example_env ''qunit tests'' example_platform) =
     processPlatform example_env ''qunit tests'' example_platform \<and>
   processPlatform example_env ''qunit tests'' example_platform =
     [(''maxDuration'', JNum 1800), (''commandTimeout'', JNum 300), (''idleTimeout'', JNum 90),
      (''build'', JStr ''42''), (''tunnelIdentifier'', JStr ''42.1''), (''version'', JStr ''9''),
      (''browserName'', JStr ''Safari''), (''platform'', JStr ''''), (''deviceName'', JStr ''iPhone''),
      (''name'', JStr ''qunit tests (iPhone Safari 9)'')]"
proof -
  have d: "distinct (map fst example_platform)" by code_simp
  have v: "processPlatform example_env ''qunit tests'' example_platform =
     [(''maxDuration'', JNum 1800), (''commandTimeout'', JNum 300), (''idleTimeout'', JNum 90),
      (''build'', JStr ''42''), (''tunnelIdentifier'', JStr ''42.1''), (''version'', JStr ''9''),
      (''browserName'', JStr ''Safari''), (''platform'', JStr ''''), (''deviceName'', JStr ''iPhone''),
      (''name'', JStr ''qunit tests (iPhone Safari 9)'')]" by code_simp
  from processPlatform_idempotent [OF d, of example_env "''qunit tests''"] d v
  show ?thesis by blast
qed

section \<open>Lists of tasks\<close>

lemmas basic_defs = console_log_def setTimeout_def clearTimeout_def upd_test_def initKeepAlive_def
  makeTest_def complete_def pollSauceLabsStatus_def checkTestResults_def

lemma nth_list_update_any:
  "j < length xs \<Longrightarrow> (xs[i := y]) ! j = (if i = j then y else xs ! j)"
  by (cases "i = j") simp_all

lemma map_list_update_same:
  assumes "f y = f (xs ! i)"
  shows "map f (xs[i := y]) = map f xs"
proof (cases "i < length xs")
  case True
  with assms show ?thesis by (simp add: map_update list_update_same_conv)
next
  case False
  then show ?thesis by (simp add: list_update_beyond)
qed

lemma list_all_concat_update:
  "i < length xs \<Longrightarrow> list_all P (concat (xs[i := xs ! i @ [b]])) = (list_all P (concat xs) \<and> P b)"
proof -
  assume i: "i < length xs"
  have "list_all P (concat xs) = list_all P (concat (take i xs @ xs ! i # drop (Suc i) xs))"
    using i by (simp add: id_take_nth_drop [symmetric])
  then show ?thesis using i by (auto simp: upd_conv_take_nth_drop)
qed

lemma length_filter_filter_le:
  "length (filter P (filter Q xs)) \<le> length (filter P xs)"
  by (induction xs) auto

lemma make_tests_new: "t \<in> set (make_tests e cfg) \<Longrightarrow> \<exists>u p. t = new_test u p"
  by (auto simp: make_tests_def Let_def)

section \<open>The heartbeat\<close>

lemma heartbeat_inv_upd_test:
  assumes "heartbeat_inv r s"
    and "\<And>t. initPending (g t) \<longrightarrow> initPending t"
    and "\<And>t. sessionId (g t) = sessionId t"
  shows "heartbeat_inv r (upd_test i g s)"
  using assms unfolding heartbeat_inv_def heartbeats_def upd_test_def
  by (auto simp: nth_list_update_any)

lemma heartbeat_inv_basic:
  "heartbeat_inv r s \<Longrightarrow> heartbeat_inv r (console_log x s)"
  "heartbeat_inv r s \<Longrightarrow> heartbeat_inv r (setTimeout (JobTimer i) s)"
  "heartbeat_inv r s \<Longrightarrow> heartbeat_inv r (complete s)"
  "heartbeat_inv r s \<Longrightarrow> heartbeat_inv r (pollSauceLabsStatus i s)"
  "heartbeat_inv r s \<Longrightarrow> heartbeat_inv r (checkTestResults i s)"
  "heartbeat_inv r s \<Longrightarrow> heartbeat_inv r (s\<lparr>retryCount := n\<rparr>)"
  "heartbeat_inv r s \<Longrightarrow> heartbeat_inv r (s\<lparr>uncaught := u\<rparr>)"
  "heartbeat_inv r s \<Longrightarrow> heartbeat_inv r (s\<lparr>allPlatformsPassed := a\<rparr>)"
  unfolding heartbeat_inv_def heartbeats_def basic_defs
  by (auto simp: nth_list_update_any)

lemma heartbeat_inv_clearTimeout: "heartbeat_inv r s \<Longrightarrow> heartbeat_inv r (clearTimeout h s)"
  unfolding heartbeat_inv_def heartbeats_def clearTimeout_def
  using length_filter_filter_le [of "\<lambda>(h, k). k = KeepAliveTimer" "\<lambda>(h', k). h' \<noteq> h" "timers s"]
  by (auto simp: filter_empty_conv)

lemma heartbeats_cleared:
  assumes "heartbeat_inv r s" and "keepAliveTimeoutId s = Some h"
  shows "heartbeats (clearTimeout h s) = []"
  using assms unfolding heartbeat_inv_def heartbeats_def clearTimeout_def
  by (auto simp: filter_empty_conv)

lemma heartbeats_none:
  assumes "heartbeat_inv r s" and "keepAliveTimeoutId s = None"
  shows "heartbeats s = []"
  using assms unfolding heartbeat_inv_def
  by (cases "heartbeats s") auto

lemma heartbeat_inv_makeTest: "heartbeat_inv r s \<Longrightarrow> heartbeat_inv r (makeTest i s)"
proof (cases "keepAliveTimeoutId s")
  case None
  assume inv: "heartbeat_inv r s"
  from heartbeats_none [OF inv None] have "heartbeats s = []" .
  with inv None show ?thesis
    unfolding heartbeat_inv_def heartbeats_def basic_defs
    by (auto simp: nth_list_update_any Let_def)
next
  case (Some h)
  assume "heartbeat_inv r s"
  with Some show ?thesis
    unfolding heartbeat_inv_def heartbeats_def basic_defs
    by (auto simp: nth_list_update_any Let_def)
qed

lemma heartbeat_inv_cb: "heartbeat_inv r s \<Longrightarrow> heartbeat_inv r (cb i err s)"
  unfolding cb_def Let_def
  by (auto intro!: heartbeat_inv_makeTest heartbeat_inv_basic heartbeat_inv_upd_test split: mode.splits)

lemma heartbeat_inv_testComplete: "heartbeat_inv r s \<Longrightarrow> heartbeat_inv r (testComplete r' i b s)"
  unfolding testComplete_def Let_def
  by (auto intro!: heartbeat_inv_cb heartbeat_inv_basic heartbeat_inv_upd_test heartbeat_inv_clearTimeout split: option.splits)

lemma heartbeat_inv_checkTestResults_callback:
  "heartbeat_inv r s \<Longrightarrow> heartbeat_inv r (checkTestResults_callback r' i err texts s)"
  unfolding checkTestResults_callback_def Let_def
  by (auto intro!: heartbeat_inv_testComplete heartbeat_inv_basic heartbeat_inv_upd_test split: option.splits)

lemma heartbeat_inv_showJob_callback: "heartbeat_inv r s \<Longrightarrow> heartbeat_inv r (showJob_callback r' i reply s)"
  unfolding showJob_callback_def Let_def
  by (auto intro!: heartbeat_inv_testComplete heartbeat_inv_basic heartbeat_inv_upd_test split: sum.splits)

lemma heartbeat_inv_waitForElements_callback:
  "heartbeat_inv r s \<Longrightarrow> heartbeat_inv r (waitForElements_callback r' i texts reply s)"
  unfolding waitForElements_callback_def
  by (auto intro!: heartbeat_inv_checkTestResults_callback heartbeat_inv_basic heartbeat_inv_upd_test split: sum.splits)

lemma heartbeat_inv_text_callback:
  "heartbeat_inv r s \<Longrightarrow> heartbeat_inv r (text_callback r' i texts reply s)"
  unfolding text_callback_def
  by (auto intro!: heartbeat_inv_checkTestResults_callback heartbeat_inv_cb heartbeat_inv_basic heartbeat_inv_upd_test
      split: sum.splits)

lemma heartbeat_inv_session:
  assumes inv: "heartbeat_inv r s"
    and hb: "heartbeats s = []"
    and ka: "r = Index_js \<longrightarrow> keepAliveTimeoutId s \<noteq> None"
  shows "heartbeat_inv r (upd_test i (\<lambda>t. t\<lparr>sessionId := Some sid\<rparr>) s)"
  using assms unfolding heartbeat_inv_def heartbeats_def upd_test_def
  by (auto simp: nth_list_update_any)

lemma heartbeat_inv_init_callback:
  assumes inv: "heartbeat_inv r s"
    and ka: "r = Index_js \<longrightarrow> keepAliveTimeoutId s \<noteq> None"
  shows "heartbeat_inv r (init_callback r i reply s)"
proof (cases reply)
  case (Inl err)
  then show ?thesis
    by (simp add: init_callback_def heartbeat_inv_testComplete heartbeat_inv_basic inv)
next
  case (Inr sid)
  show ?thesis
  proof (cases "keepAliveTimeoutId s")
    case None
    with ka have r: "r = Part_000" by (cases r) auto
    have "heartbeat_inv r (upd_test i (\<lambda>t. t\<lparr>sessionId := Some sid\<rparr>) (console_log (JobUrl i sid) s))"
      using heartbeats_none [OF inv None] r
      by (intro heartbeat_inv_session heartbeat_inv_basic inv) (simp_all add: heartbeats_def console_log_def)
    then show ?thesis
      by (simp add: init_callback_def Inr None Let_def heartbeat_inv_basic)
  next
    case (Some h)
    let ?c = "clearTimeout h s"
    let ?s1 = "if r = Part_000 then ?c\<lparr>keepAliveTimeoutId := None\<rparr> else ?c"
    have hb: "heartbeats ?s1 = []"
      using heartbeats_cleared [OF inv Some] by (simp add: heartbeats_def)
    have inv1: "heartbeat_inv r ?s1"
      using heartbeat_inv_clearTimeout [OF inv, of h] hb
      by (cases r) (auto simp: heartbeat_inv_def heartbeats_def clearTimeout_def)
    have ka1: "r = Index_js \<longrightarrow> keepAliveTimeoutId ?s1 \<noteq> None"
      using Some by (simp add: clearTimeout_def)
    have "heartbeat_inv r (upd_test i (\<lambda>t. t\<lparr>sessionId := Some sid\<rparr>) (console_log (JobUrl i sid) ?s1))"
      using hb ka1
      by (intro heartbeat_inv_session heartbeat_inv_basic inv1) (simp_all add: heartbeats_def console_log_def)
    then show ?thesis
      by (simp add: init_callback_def Inr Some Let_def heartbeat_inv_basic)
  qed
qed

lemma heartbeat_inv_fire: "heartbeat_inv r s \<Longrightarrow> heartbeat_inv r (fire h s)"
proof (cases "map_of (timers s) h")
  case None
  assume "heartbeat_inv r s"
  with None show ?thesis by (simp add: fire_def)
next
  case (Some k)
  assume inv: "heartbeat_inv r s"
  show ?thesis
  proof (cases k)
    case KeepAliveTimer
    from Some KeepAliveTimer have mem: "(h, KeepAliveTimer) \<in> set (heartbeats s)"
      by (auto simp: heartbeats_def dest: map_of_SomeD)
    with inv have ka: "keepAliveTimeoutId s = Some h" by (auto simp: heartbeat_inv_def)
    from mem have ne: "heartbeats s \<noteq> []" by auto
    have hb: "heartbeats (clearTimeout h s) = []" by (rule heartbeats_cleared [OF inv ka])
    have "heartbeat_inv r (initKeepAlive (clearTimeout h s))"
      using heartbeat_inv_clearTimeout [OF inv, of h] hb ne inv
      unfolding heartbeat_inv_def heartbeats_def basic_defs
      by (auto simp: Let_def)
    then show ?thesis by (simp add: fire_def Some KeepAliveTimer)
  next
    case (JobTimer i)
    then show ?thesis
      by (simp add: fire_def Some heartbeat_inv_basic heartbeat_inv_clearTimeout inv)
  qed
qed

lemma heartbeat_inv_handle: "heartbeat_inv r s \<Longrightarrow> heartbeat_inv r (handle r ev s)"
proof (cases ev)
  case (InitReply i reply)
  assume inv: "heartbeat_inv r s"
  show ?thesis
  proof (cases "i < length (tests s) \<and> initPending (tests s ! i)")
    case True
    let ?s = "upd_test i (\<lambda>t. t\<lparr>initPending := False\<rparr>) s"
    have "heartbeat_inv r ?s" by (rule heartbeat_inv_upd_test [OF inv]) simp_all
    moreover have "r = Index_js \<longrightarrow> keepAliveTimeoutId ?s \<noteq> None"
      using inv True by (auto simp: heartbeat_inv_def upd_test_def)
    ultimately show ?thesis using True by (simp add: InitReply heartbeat_inv_init_callback)
  next
    case False
    with inv show ?thesis by (auto simp: InitReply)
  qed
next
  case (ShowJobReply i reply)
  then show "heartbeat_inv r s \<Longrightarrow> ?thesis"
    by (auto intro!: heartbeat_inv_showJob_callback heartbeat_inv_upd_test)
next
  case (WaitReply i reply)
  then show "heartbeat_inv r s \<Longrightarrow> ?thesis"
    by (auto intro!: heartbeat_inv_waitForElements_callback split: scraper.splits)
next
  case (TextReply i reply)
  then show "heartbeat_inv r s \<Longrightarrow> ?thesis"
    by (auto intro!: heartbeat_inv_text_callback split: scraper.splits)
next
  case (TimerFires h)
  then show "heartbeat_inv r s \<Longrightarrow> ?thesis" by (simp add: heartbeat_inv_fire)
next
  case QuitReply
  then show "heartbeat_inv r s \<Longrightarrow> ?thesis" by (auto simp: heartbeat_inv_def heartbeats_def)
qed

lemma heartbeat_inv_exec: "heartbeat_inv r s \<Longrightarrow> heartbeat_inv r (exec r evs s)"
  by (induction evs arbitrary: s) (simp_all add: step_def heartbeat_inv_handle)

lemma heartbeat_inv_foldl_makeTest: "heartbeat_inv r s \<Longrightarrow> heartbeat_inv r (foldl (\<lambda>s i. makeTest i s) s is)"
  by (induction "is" arbitrary: s) (simp_all add: heartbeat_inv_makeTest)

lemma heartbeat_inv_parallel: "heartbeat_inv r s \<Longrightarrow> heartbeat_inv r (parallel s)"
proof -
  assume "heartbeat_inv r s"
  then have "heartbeat_inv r (s\<lparr>mode := Parallel\<rparr>)" by (simp add: heartbeat_inv_def heartbeats_def)
  then show ?thesis
    by (simp add: parallel_def Let_def heartbeat_inv_foldl_makeTest heartbeat_inv_basic)
qed

lemma heartbeat_inv_series: "heartbeat_inv r s \<Longrightarrow> heartbeat_inv r (series s)"
proof -
  assume "heartbeat_inv r s"
  then have "heartbeat_inv r (s\<lparr>mode := Series\<rparr>)" by (simp add: heartbeat_inv_def heartbeats_def)
  then show ?thesis
    by (simp add: series_def Let_def heartbeat_inv_makeTest heartbeat_inv_basic)
qed

lemma heartbeat_inv_loaded:
  "heartbeat_inv r (module_state\<lparr>allowZeroAssertions := a, tests := make_tests e cfg\<rparr>)"
proof -
  have "\<not> initPending (make_tests e cfg ! j) \<and> sessionId (make_tests e cfg ! j) = None"
    if "j < length (make_tests e cfg)" for j
  proof -
    from that obtain u p where "make_tests e cfg ! j = new_test u p"
      using make_tests_new [of "make_tests e cfg ! j" e cfg] by auto
    then show ?thesis by (simp add: new_test_def)
  qed
  then show ?thesis by (simp add: heartbeat_inv_def heartbeats_def module_state_def)
qed

lemma heartbeat_inv_module_exports: "heartbeat_inv r (module_exports r' e cfg module_state)"
  by (cases r') (simp_all add: module_exports_def Let_def heartbeat_inv_parallel heartbeat_inv_series heartbeat_inv_loaded)

text \<open>
  Claim C7. In \<^verbatim>\<open>src/index.js\<close>, in every state that a run reaches, by any sequence of
  events from any configuration, no heartbeat timer is pending once some task has obtained
  a session; and in both revisions at most one heartbeat timer is pending at any time,
  however many tasks are initialising.
\<close>

theorem heartbeat_stops_once_session_established:
  "(session_established (exec Index_js evs (module_exports Index_js e cfg module_state)) \<longrightarrow>
      heartbeats (exec Index_js evs (module_exports Index_js e cfg module_state)) = []) \<and>
   length (heartbeats (exec r evs (module_exports r e cfg module_state))) \<le> 1"
proof -
  have "heartbeat_inv r' (exec r' evs (module_exports r' e cfg module_state))" for r'
    by (intro heartbeat_inv_exec heartbeat_inv_module_exports)
  from this [of Index_js] this [of r] show ?thesis
    by (auto simp: heartbeat_inv_def session_established_def list_ex_iff in_set_conv_nth)
qed

text \<open>The theorem at a run of two tasks started together: the heartbeat is pending at the
  start, fires once, and is gone when the second task obtains its session.\<close>

theorem heartbeat_stops_once_session_established_witness:
  "heartbeats (module_exports Index_js example_env (example_config None None None) module_state) =
     [(0, KeepAliveTimer)] \<and>
   session_established (exec Index_js [TimerFires 0, InitReply 1 (Inr 11)]
     (module_exports Index_js example_env (example_config None None None) module_state)) \<and>
   heartbeats (exec Index_js [TimerFires 0, InitReply 1 (Inr 11)]
     (module_exports Index_js example_env (example_config None None None) module_state)) = []"
proof -
  let ?s = "exec Index_js [TimerFires 0, InitReply 1 (Inr 11)]
     (module_exports Index_js example_env (example_config None None None) module_state)"
  have h0: "heartbeats (module_exports Index_js example_env (example_config None None None) module_state) =
     [(0, KeepAliveTimer)]" by code_simp
  have h1: "session_established ?s" by code_simp
  from heartbeat_stops_once_session_established
    [of "[TimerFires 0, InitReply 1 (Inr 11)]" example_env "example_config None None None"] h1
  have "heartbeats ?s = []" by blast
  with h0 h1 show ?thesis by blast
qed

text \<open>The revision of \<^verbatim>\<open>part_000\<close> resets \<^verbatim>\<open>keepAliveTimeoutId\<close> to \<^verbatim>\<open>null\<close>, so there the
  next task of a series starts the heartbeat again after the first task had its session.\<close>

lemma heartbeat_restarts_in_part_000:
  "session_established (exec Part_000 ([InitReply 0 (Inr 10)] @ example_reads 0 ''5'' ''0'' ''5'')
      (module_exports Part_000 example_env (example_config None None None) module_state)) \<and>
   heartbeats (exec Part_000 ([InitReply 0 (Inr 10)] @ example_reads 0 ''5'' ''0'' ''5'')
      (module_exports Part_000 example_env (example_config None None None) module_state)) =
     [(1, KeepAliveTimer)]"
  by code_simp

section \<open>The global status\<close>

lemma cb_static:
  "allowZeroAssertions (cb i err s) = allowZeroAssertions s \<and>
   length (tests (cb i err s)) = length (tests s) \<and>
   mode (cb i err s) = mode s \<and>
   exitCode (cb i err s) = exitCode s \<and>
   uncaught (cb i err s) = uncaught s \<and>
   allPlatformsPassed (cb i err s) = allPlatformsPassed s \<and>
   map sauceJobStatus (tests (cb i err s)) = map sauceJobStatus (tests s)"
  by (simp add: cb_def basic_defs Let_def map_list_update_same split: mode.splits)

lemma testComplete_static:
  "allowZeroAssertions (testComplete r i b s) = allowZeroAssertions s \<and>
   length (tests (testComplete r i b s)) = length (tests s) \<and>
   mode (testComplete r i b s) = mode s \<and>
   exitCode (testComplete r i b s) = exitCode s \<and>
   uncaught (testComplete r i b s) = uncaught s"
  by (simp add: testComplete_def cb_static basic_defs Let_def split: option.splits)

lemma testComplete_outcomes:
  "i < length (tests s) \<Longrightarrow>
   map sauceJobStatus (tests (testComplete r i b s)) =
     (map sauceJobStatus (tests s))[i := sauceJobStatus (tests s ! i) @ [b]] \<and>
   allPlatformsPassed (testComplete r i b s) = (allPlatformsPassed s \<and> b)"
  by (simp add: testComplete_def cb_static basic_defs Let_def map_update split: option.splits)

lemma aggregate_inv_cb [simp]: "aggregate_inv (cb i err s) = aggregate_inv s"
  by (simp add: aggregate_inv_def outcomes_def cb_static)

lemma aggregate_inv_testComplete:
  assumes "aggregate_inv s" and "i < length (tests s)" and "exitCode s = None"
  shows "aggregate_inv (testComplete r i b s)"
  using assms
  by (simp add: aggregate_inv_def outcomes_def testComplete_outcomes testComplete_static
      list_all_concat_update [of i "map sauceJobStatus (tests s)" id b, simplified])

lemma aggregate_inv_basic [simp]:
  "aggregate_inv (console_log x s) = aggregate_inv s"
  "aggregate_inv (setTimeout k s) = aggregate_inv s"
  "aggregate_inv (clearTimeout h s) = aggregate_inv s"
  "aggregate_inv (initKeepAlive s) = aggregate_inv s"
  "aggregate_inv (complete s) = aggregate_inv s"
  "aggregate_inv (makeTest i s) = aggregate_inv s"
  "aggregate_inv (pollSauceLabsStatus i s) = aggregate_inv s"
  "aggregate_inv (checkTestResults i s) = aggregate_inv s"
  "aggregate_inv (s\<lparr>keepAliveTimeoutId := k'\<rparr>) = aggregate_inv s"
  "aggregate_inv (s\<lparr>retryCount := n\<rparr>) = aggregate_inv s"
  "aggregate_inv (s\<lparr>uncaught := u\<rparr>) = aggregate_inv s"
  "aggregate_inv (upd_test i (\<lambda>t. t\<lparr>scraper := sc\<rparr>) s) = aggregate_inv s"
  "aggregate_inv (upd_test i (\<lambda>t. t\<lparr>initPending := ip\<rparr>) s) = aggregate_inv s"
  "aggregate_inv (upd_test i (\<lambda>t. t\<lparr>showJobPending := sp\<rparr>) s) = aggregate_inv s"
  "aggregate_inv (upd_test i (\<lambda>t. t\<lparr>jobTimeoutId := jt\<rparr>) s) = aggregate_inv s"
  "aggregate_inv (upd_test i (\<lambda>t. t\<lparr>sessionId := sid\<rparr>) s) = aggregate_inv s"
  by (simp_all add: aggregate_inv_def outcomes_def basic_defs Let_def map_list_update_same)

lemma basic_static [simp]:
  "length (tests (upd_test i g s)) = length (tests s)"
  "tests (console_log x s) = tests s"
  "tests (setTimeout k s) = tests s"
  "tests (clearTimeout h s) = tests s"
  "exitCode (upd_test i g s) = exitCode s"
  "exitCode (console_log x s) = exitCode s"
  "exitCode (setTimeout k s) = exitCode s"
  "exitCode (clearTimeout h s) = exitCode s"
  "exitCode (initKeepAlive s) = exitCode s"
  "length (tests (initKeepAlive s)) = length (tests s)"
  "exitCode (pollSauceLabsStatus i s) = exitCode s"
  "length (tests (pollSauceLabsStatus i s)) = length (tests s)"
  "exitCode (checkTestResults i s) = exitCode s"
  "length (tests (checkTestResults i s)) = length (tests s)"
  by (simp_all add: basic_defs Let_def)

lemma aggregate_inv_checkTestResults_callback:
  "aggregate_inv s \<Longrightarrow> i < length (tests s) \<Longrightarrow> exitCode s = None \<Longrightarrow>
   aggregate_inv (checkTestResults_callback r i err texts s)"
  by (auto simp: checkTestResults_callback_def Let_def intro!: aggregate_inv_testComplete split: option.splits)

lemma aggregate_inv_handle:
  "aggregate_inv s \<Longrightarrow> exitCode s = None \<Longrightarrow> aggregate_inv (handle r ev s)"
proof (cases ev)
  case (InitReply i reply)
  then show "aggregate_inv s \<Longrightarrow> exitCode s = None \<Longrightarrow> ?thesis"
    by (auto simp: init_callback_def Let_def intro!: aggregate_inv_testComplete split: sum.splits option.splits)
next
  case (ShowJobReply i reply)
  then show "aggregate_inv s \<Longrightarrow> exitCode s = None \<Longrightarrow> ?thesis"
    by (auto simp: showJob_callback_def Let_def intro!: aggregate_inv_testComplete split: sum.splits)
next
  case (WaitReply i reply)
  then show "aggregate_inv s \<Longrightarrow> exitCode s = None \<Longrightarrow> ?thesis"
    by (auto simp: waitForElements_callback_def intro!: aggregate_inv_checkTestResults_callback
        split: sum.splits scraper.splits)
next
  case (TextReply i reply)
  then show "aggregate_inv s \<Longrightarrow> exitCode s = None \<Longrightarrow> ?thesis"
    by (auto simp: text_callback_def intro!: aggregate_inv_checkTestResults_callback
        split: sum.splits scraper.splits)
next
  case (TimerFires h)
  then show "aggregate_inv s \<Longrightarrow> exitCode s = None \<Longrightarrow> ?thesis"
    by (auto simp: fire_def split: option.splits timer.splits)
next
  case QuitReply
  then show "aggregate_inv s \<Longrightarrow> exitCode s = None \<Longrightarrow> ?thesis"
    by (auto simp: aggregate_inv_def outcomes_def)
qed

lemma aggregate_inv_step: "aggregate_inv s \<Longrightarrow> aggregate_inv (step r ev s)"
  by (simp add: step_def aggregate_inv_handle)

lemma aggregate_inv_exec: "aggregate_inv s \<Longrightarrow> aggregate_inv (exec r evs s)"
  by (induction evs arbitrary: s) (simp_all add: aggregate_inv_step)

lemma aggregate_inv_foldl_makeTest: "aggregate_inv (foldl (\<lambda>s i. makeTest i s) s is) = aggregate_inv s"
  by (induction "is" arbitrary: s) simp_all

lemma outcomes_make_tests: "concat (map sauceJobStatus (make_tests e cfg)) = []"
proof -
  have "sauceJobStatus t = []" if "t \<in> set (make_tests e cfg)" for t
  proof -
    from make_tests_new [OF that] obtain u p where "t = new_test u p" by blast
    then show ?thesis by (simp add: new_test_def)
  qed
  then show ?thesis by simp
qed

lemma aggregate_inv_parallel: "aggregate_inv (parallel s) = aggregate_inv s"
proof -
  have "aggregate_inv (s\<lparr>mode := Parallel\<rparr>) = aggregate_inv s" by (simp add: aggregate_inv_def outcomes_def)
  then show ?thesis by (simp add: parallel_def Let_def aggregate_inv_foldl_makeTest)
qed

lemma aggregate_inv_series: "aggregate_inv (series s) = aggregate_inv s"
proof -
  have "aggregate_inv (s\<lparr>mode := Series\<rparr>) = aggregate_inv s" by (simp add: aggregate_inv_def outcomes_def)
  then show ?thesis by (simp add: series_def Let_def)
qed

lemma aggregate_inv_loaded:
  "aggregate_inv (module_state\<lparr>allowZeroAssertions := a, tests := make_tests e cfg\<rparr>)"
  by (simp add: aggregate_inv_def outcomes_def module_state_def outcomes_make_tests)

lemma aggregate_inv_module_exports: "aggregate_inv (module_exports r e cfg module_state)"
  by (cases r) (simp_all add: module_exports_def Let_def aggregate_inv_parallel aggregate_inv_series aggregate_inv_loaded)

text \<open>
  Claim C2. In every state that a run reaches, in either mode, the global status
  \<^verbatim>\<open>allPlatformsPassed\<close> is the conjunction of all outcomes reported; the exit code, once the
  process has ended, is 0 when all of them are true and 1 when one is false; and two runs
  that report the same outcomes, in whatever order and mode, have the same global status.
\<close>

theorem aggregate_is_conjunction:
  "allPlatformsPassed (exec r evs (module_exports r e cfg module_state)) =
     list_all id (outcomes (exec r evs (module_exports r e cfg module_state))) \<and>
   (\<forall>c. exitCode (exec r evs (module_exports r e cfg module_state)) = Some c \<longrightarrow>
      c = (if list_all id (outcomes (exec r evs (module_exports r e cfg module_state))) then 0 else 1)) \<and>
   (mset (outcomes (exec r evs (module_exports r e cfg module_state))) =
    mset (outcomes (exec r' evs' (module_exports r' e' cfg' module_state))) \<longrightarrow>
      allPlatformsPassed (exec r evs (module_exports r e cfg module_state)) =
      allPlatformsPassed (exec r' evs' (module_exports r' e' cfg' module_state)))"
proof -
  let ?s = "exec r evs (module_exports r e cfg module_state)"
  let ?s' = "exec r' evs' (module_exports r' e' cfg' module_state)"
  have inv: "aggregate_inv (exec q es (module_exports q en c module_state))" for q es en c
    by (intro aggregate_inv_exec aggregate_inv_module_exports)
  have agg: "allPlatformsPassed ?s = list_all id (outcomes ?s)"
    and agg': "allPlatformsPassed ?s' = list_all id (outcomes ?s')"
    using inv [of r evs e cfg] inv [of r' evs' e' cfg'] by (simp_all add: aggregate_inv_def)
  have code: "c = (if list_all id (outcomes ?s) then 0 else 1)" if "exitCode ?s = Some c" for c
    using inv [of r evs e cfg] that agg by (simp add: aggregate_inv_def)
  have same: "allPlatformsPassed ?s = allPlatformsPassed ?s'"
    if "mset (outcomes ?s) = mset (outcomes ?s')"
  proof -
    from that have "set (outcomes ?s) = set (outcomes ?s')" by (rule mset_eq_setD)
    then have "list_all id (outcomes ?s) = list_all id (outcomes ?s')" by (simp only: list_all_iff)
    with agg agg' show ?thesis by (simp only:)
  qed
  from agg code same show ?thesis by blast
qed

text \<open>The theorem at a parallel run in which the failing platform reports first, and at
  a series run of the same outcomes: both end with exit code 1.\<close>

theorem aggregate_is_conjunction_witness:
  "outcomes (exec Part_000 example_parallel_run
      (module_exports Part_000 example_env (example_config None (Some True) None) module_state)) = [True, False] \<and>
   outcomes (exec Part_000 example_series_run
      (module_exports Part_000 example_env (example_config None None None) module_state)) = [True, False] \<and>
   mode (exec Part_000 example_parallel_run
      (module_exports Part_000 example_env (example_config None (Some True) None) module_state)) = Parallel \<and>
   mode (exec Part_000 example_series_run
      (module_exports Part_000 example_env (example_config None None None) module_state)) = Series \<and>
   exitCode (exec Part_000 example_parallel_run
      (module_exports Part_000 example_env (example_config None (Some True) None) module_state)) = Some 1 \<and>
   allPlatformsPassed (exec Part_000 example_parallel_run
      (module_exports Part_000 example_env (example_config None (Some True) None) module_state)) =
   allPlatformsPassed (exec Part_000 example_series_run
      (module_exports Part_000 example_env (example_config None None None) module_state))"
proof -
  let ?p = "exec Part_000 example_parallel_run
      (module_exports Part_000 example_env (example_config None (Some True) None) module_state)"
  let ?s = "exec Part_000 example_series_run
      (module_exports Part_000 example_env (example_config None None None) module_state)"
  have op: "outcomes ?p = [True, False]" by code_simp
  have os: "outcomes ?s = [True, False]" by code_simp
  have mp: "mode ?p = Parallel" by code_simp
  have ms: "mode ?s = Series" by code_simp
  have x: "exitCode ?p = Some 1" by code_simp
  have "mset (outcomes ?p) = mset (outcomes ?s)" by (simp only: op os)
  with aggregate_is_conjunction [of Part_000 example_parallel_run example_env
      "example_config None (Some True) None" Part_000 example_series_run example_env
      "example_config None None None"]
  have "allPlatformsPassed ?p = allPlatformsPassed ?s" by blast
  with op os mp ms x show ?thesis by blast
qed

section \<open>What no event changes\<close>

lemma handle_static:
  "allowZeroAssertions (handle r ev s) = allowZeroAssertions s \<and>
   length (tests (handle r ev s)) = length (tests s) \<and>
   mode (handle r ev s) = mode s"
  by (cases ev)
     (simp_all add: init_callback_def showJob_callback_def waitForElements_callback_def
        text_callback_def checkTestResults_callback_def fire_def
        testComplete_static cb_static basic_defs Let_def
        split: sum.splits option.splits scraper.splits timer.splits)

lemma exec_static:
  "allowZeroAssertions (exec r evs s) = allowZeroAssertions s \<and>
   length (tests (exec r evs s)) = length (tests s) \<and>
   mode (exec r evs s) = mode s"
  by (induction evs arbitrary: s) (simp_all add: step_def handle_static)

lemma foldl_makeTest_static:
  "allowZeroAssertions (foldl (\<lambda>s i. makeTest i s) s is) = allowZeroAssertions s \<and>
   length (tests (foldl (\<lambda>s i. makeTest i s) s is)) = length (tests s) \<and>
   mode (foldl (\<lambda>s i. makeTest i s) s is) = mode s"
  by (induction "is" arbitrary: s) (simp_all add: basic_defs Let_def)

lemma parallel_static:
  "allowZeroAssertions (parallel s) = allowZeroAssertions s \<and> mode (parallel s) = Parallel"
  by (simp add: parallel_def Let_def foldl_makeTest_static complete_def console_log_def)

lemma series_static:
  "allowZeroAssertions (series s) = allowZeroAssertions s \<and> mode (series s) = Series"
  by (simp add: series_def Let_def basic_defs)

lemma allowZeroAssertions_module_exports:
  "allowZeroAssertions (module_exports r e cfg s) =
     (case zeroAssertionsPass cfg of None \<Rightarrow> allowZeroAssertions s | Some b \<Rightarrow> b)"
  by (cases r) (simp_all add: module_exports_def Let_def parallel_static series_static)

lemma mode_module_exports:
  "mode (module_exports r e cfg s) =
     (case r of
        Index_js \<Rightarrow> if runInSeries cfg = Some True then Series else Parallel
      | Part_000 \<Rightarrow> if runInParallel cfg = Some True then Parallel else Series)"
  by (cases r) (simp_all add: module_exports_def Let_def parallel_static series_static)

section \<open>The order of the tasks\<close>

lemma series_inv_upd_test:
  assumes "series_inv s"
    and "\<And>t. started (g t) = started t"
    and "\<And>t. cbCalls t \<noteq> [] \<longrightarrow> cbCalls (g t) \<noteq> []"
  shows "series_inv (upd_test i g s)"
  using assms unfolding series_inv_def upd_test_def
  by (auto simp: nth_list_update_any split: if_splits)

lemma series_inv_basic:
  "series_inv s \<Longrightarrow> series_inv (console_log x s)"
  "series_inv s \<Longrightarrow> series_inv (setTimeout k s)"
  "series_inv s \<Longrightarrow> series_inv (clearTimeout h s)"
  "series_inv s \<Longrightarrow> series_inv (initKeepAlive s)"
  "series_inv s \<Longrightarrow> series_inv (complete s)"
  "series_inv s \<Longrightarrow> series_inv (pollSauceLabsStatus i s)"
  "series_inv s \<Longrightarrow> series_inv (checkTestResults i s)"
  "series_inv s \<Longrightarrow> series_inv (s\<lparr>retryCount := n\<rparr>)"
  "series_inv s \<Longrightarrow> series_inv (s\<lparr>uncaught := u\<rparr>)"
  "series_inv s \<Longrightarrow> series_inv (s\<lparr>allPlatformsPassed := a\<rparr>)"
  "series_inv s \<Longrightarrow> series_inv (s\<lparr>keepAliveTimeoutId := ka\<rparr>)"
  unfolding series_inv_def basic_defs
  by (auto simp: nth_list_update_any Let_def split: if_splits)

lemma series_inv_cb: "series_inv s \<Longrightarrow> series_inv (cb i err s)"
  unfolding series_inv_def cb_def basic_defs
  by (auto simp: nth_list_update_any Let_def split: mode.splits if_splits)

lemma series_inv_testComplete: "series_inv s \<Longrightarrow> series_inv (testComplete r i b s)"
  unfolding testComplete_def Let_def
  by (auto intro!: series_inv_cb series_inv_basic series_inv_upd_test split: option.splits)

lemma series_inv_checkTestResults_callback:
  "series_inv s \<Longrightarrow> series_inv (checkTestResults_callback r i err texts s)"
  unfolding checkTestResults_callback_def Let_def
  by (auto intro!: series_inv_testComplete series_inv_basic series_inv_upd_test split: option.splits)

lemma series_inv_handle: "series_inv s \<Longrightarrow> series_inv (handle r ev s)"
proof (cases ev)
  case (InitReply i reply)
  then show "series_inv s \<Longrightarrow> ?thesis"
    by (auto simp: init_callback_def Let_def
        intro!: series_inv_testComplete series_inv_basic series_inv_upd_test
        split: sum.splits option.splits)
next
  case (ShowJobReply i reply)
  then show "series_inv s \<Longrightarrow> ?thesis"
    by (auto simp: showJob_callback_def Let_def
        intro!: series_inv_testComplete series_inv_basic series_inv_upd_test split: sum.splits)
next
  case (WaitReply i reply)
  then show "series_inv s \<Longrightarrow> ?thesis"
    by (auto simp: waitForElements_callback_def
        intro!: series_inv_checkTestResults_callback series_inv_basic series_inv_upd_test
        split: sum.splits scraper.splits)
next
  case (TextReply i reply)
  then show "series_inv s \<Longrightarrow> ?thesis"
    by (auto simp: text_callback_def
        intro!: series_inv_checkTestResults_callback series_inv_cb series_inv_basic series_inv_upd_test
        split: sum.splits scraper.splits)
next
  case (TimerFires h)
  then show "series_inv s \<Longrightarrow> ?thesis"
    by (auto simp: fire_def intro!: series_inv_basic split: option.splits timer.splits)
next
  case QuitReply
  then show "series_inv s \<Longrightarrow> ?thesis" by (auto simp: series_inv_def)
qed

lemma series_inv_exec: "series_inv s \<Longrightarrow> series_inv (exec r evs s)"
  by (induction evs arbitrary: s) (simp_all add: step_def series_inv_handle)

lemma series_inv_parallel: "series_inv (parallel s)"
  by (simp add: series_inv_def parallel_static)

lemma series_inv_series:
  assumes "\<forall>t \<in> set (tests s). \<not> started t"
  shows "series_inv (series s)"
proof -
  have "\<not> started (tests s ! j)" if "j < length (tests s)" for j
    using assms that by simp
  then show ?thesis
    unfolding series_inv_def series_def basic_defs
    by (auto simp: nth_list_update_any Let_def)
qed

lemma series_inv_module_exports: "series_inv (module_exports r e cfg module_state)"
proof -
  have "\<not> started t" if "t \<in> set (make_tests e cfg)" for t
  proof -
    from make_tests_new [OF that] obtain u p where "t = new_test u p" by blast
    then show ?thesis by (simp add: new_test_def)
  qed
  then have "series_inv (series (module_state\<lparr>allowZeroAssertions := a, tests := make_tests e cfg\<rparr>))" for a
    by (intro series_inv_series) simp
  then show ?thesis
    by (cases r) (simp_all add: module_exports_def Let_def series_inv_parallel)
qed

lemma started_foldl_makeTest:
  "length (tests (foldl (\<lambda>s i. makeTest i s) s is)) = length (tests s) \<and>
   (\<forall>j < length (tests s). j \<in> set is \<or> started (tests s ! j) \<longrightarrow>
      started (tests (foldl (\<lambda>s i. makeTest i s) s is) ! j))"
proof (induction "is" arbitrary: s)
  case Nil
  then show ?case by simp
next
  case (Cons i "is")
  have len: "length (tests (makeTest i s)) = length (tests s)"
    by (simp add: basic_defs Let_def)
  have st: "started (tests (makeTest i s) ! j)"
    if "j < length (tests s)" and "j = i \<or> started (tests s ! j)" for j
    using that by (auto simp: basic_defs Let_def nth_list_update_any)
  from Cons.IH [of "makeTest i s"] len st show ?case by auto
qed

lemma parallel_all_started: "list_all started (tests (parallel s))"
proof (cases "tests s = []")
  case True
  then show ?thesis by (simp add: parallel_def Let_def complete_def console_log_def)
next
  case False
  let ?s = "s\<lparr>mode := Parallel\<rparr>"
  from started_foldl_makeTest [of ?s "[0..<length (tests ?s)]"]
  have "\<forall>j < length (tests (parallel s)). started (tests (parallel s) ! j)"
    using False by (simp add: parallel_def Let_def)
  then show ?thesis by (simp add: list_all_length)
qed

text \<open>
  Claim C5, as amended. One flag alone selects the mode, and the flag differs between the
  revisions: in \<^verbatim>\<open>part_000\<close> the tasks run in parallel exactly when \<^verbatim>\<open>runInParallel\<close> is true
  and in series otherwise; in \<^verbatim>\<open>src/index.js\<close> they run in series exactly when
  \<^verbatim>\<open>runInSeries\<close> is true and in parallel otherwise. The mode never changes during a run. In
  parallel every task is started at once; in a series a task is started only after the
  task before it in the list has called its completion callback.
\<close>

theorem run_mode_selection:
  "mode (module_exports Part_000 e cfg module_state) =
     (if runInParallel cfg = Some True then Parallel else Series) \<and>
   mode (module_exports Index_js e cfg module_state) =
     (if runInSeries cfg = Some True then Series else Parallel) \<and>
   mode (exec r evs (module_exports r e cfg module_state)) = mode (module_exports r e cfg module_state) \<and>
   (mode (module_exports r e cfg module_state) = Parallel \<longrightarrow>
      list_all started (tests (module_exports r e cfg module_state))) \<and>
   (mode (module_exports r e cfg module_state) = Series \<longrightarrow>
      (\<forall>j. Suc j < length (tests (exec r evs (module_exports r e cfg module_state))) \<and>
           started (tests (exec r evs (module_exports r e cfg module_state)) ! Suc j) \<longrightarrow>
           cbCalls (tests (exec r evs (module_exports r e cfg module_state)) ! j) \<noteq> []))"
proof -
  let ?s0 = "module_exports r e cfg module_state"
  have m: "mode (exec r evs ?s0) = mode ?s0" by (simp add: exec_static)
  have p: "list_all started (tests ?s0)" if "mode ?s0 = Parallel"
    using that
    by (cases r) (auto simp: module_exports_def Let_def parallel_all_started series_static
        split: if_splits)
  have "series_inv (exec r evs ?s0)"
    by (intro series_inv_exec series_inv_module_exports)
  then have q: "\<forall>j. Suc j < length (tests (exec r evs ?s0)) \<and>
      started (tests (exec r evs ?s0) ! Suc j) \<longrightarrow> cbCalls (tests (exec r evs ?s0) ! j) \<noteq> []"
    if "mode ?s0 = Series"
    using that m by (simp add: series_inv_def)
  from m p q show ?thesis by (simp add: mode_module_exports)
qed

text \<open>The theorem at a configuration with \<^verbatim>\<open>runInParallel\<close> true, and at one without it and
  the series run.\<close>

theorem run_mode_selection_witness:
  "mode (module_exports Part_000 example_env (example_config None (Some True) None) module_state) = Parallel \<and>
   list_all started
     (tests (module_exports Part_000 example_env (example_config None (Some True) None) module_state)) \<and>
   mode (module_exports Part_000 example_env (example_config None None None) module_state) = Series \<and>
   map started (tests (module_exports Part_000 example_env (example_config None None None) module_state)) =
     [True, False] \<and>
   started (tests (exec Part_000 example_series_run
     (module_exports Part_000 example_env (example_config None None None) module_state)) ! Suc 0) \<and>
   cbCalls (tests (exec Part_000 example_series_run
     (module_exports Part_000 example_env (example_config None None None) module_state)) ! 0) \<noteq> []"
proof -
  let ?p = "module_exports Part_000 example_env (example_config None (Some True) None) module_state"
  let ?start = "module_exports Part_000 example_env (example_config None None None) module_state"
  let ?fin = "exec Part_000 example_series_run ?start"
  have mp: "mode ?p = Parallel" by code_simp
  have ms: "mode ?start = Series" by code_simp
  have st0: "map started (tests ?start) = [True, False]" by code_simp
  have len: "Suc 0 < length (tests ?fin)" by code_simp
  have st: "started (tests ?fin ! Suc 0)" by code_simp
  from run_mode_selection [of example_env "example_config None (Some True) None" Part_000 "[]"] mp
  have a: "list_all started (tests ?p)" by blast
  from run_mode_selection [of example_env "example_config None None None" Part_000 example_series_run]
    ms len st
  have b: "cbCalls (tests ?fin ! 0) \<noteq> []" by blast
  from mp a ms st0 st b show ?thesis by blast
qed

text \<open>Claim C5 as stated fails on \<^verbatim>\<open>src/index.js\<close>: with \<^verbatim>\<open>runInParallel\<close> false the tasks
  still run in parallel, and with \<^verbatim>\<open>runInParallel\<close> and \<^verbatim>\<open>runInSeries\<close> both true they run in
  series.\<close>

theorem run_mode_counterexample:
  "\<not> ((mode (module_exports Index_js example_env (example_config None (Some False) None) module_state) =
         Parallel) =
        (runInParallel (example_config None (Some False) None) = Some True)) \<and>
   \<not> ((mode (module_exports Index_js example_env (example_config None (Some True) (Some True)) module_state) =
         Parallel) =
        (runInParallel (example_config None (Some True) (Some True)) = Some True))"
  by code_simp

section \<open>The result scraper\<close>

lemma cb_sauceJobStatus:
  assumes j: "j < length (tests s)"
  shows "sauceJobStatus (tests (cb i err s) ! j) = sauceJobStatus (tests s ! j)"
proof -
  from cb_static [of i err s]
  have len: "length (tests (cb i err s)) = length (tests s)"
    and eq: "map sauceJobStatus (tests (cb i err s)) = map sauceJobStatus (tests s)" by simp_all
  have "sauceJobStatus (tests (cb i err s) ! j) = map sauceJobStatus (tests (cb i err s)) ! j"
    using j len by simp
  also have "\<dots> = map sauceJobStatus (tests s) ! j" by (simp only: eq)
  also have "\<dots> = sauceJobStatus (tests s ! j)" using j by simp
  finally show ?thesis .
qed

lemma testComplete_status:
  assumes i: "i < length (tests s)"
  shows "sauceJobStatus (tests (testComplete r i b s) ! i) = sauceJobStatus (tests s ! i) @ [b]"
proof -
  from testComplete_static [of r i b s]
  have len: "length (tests (testComplete r i b s)) = length (tests s)" by simp
  from testComplete_outcomes [OF i, of r b]
  have eq: "map sauceJobStatus (tests (testComplete r i b s)) =
      (map sauceJobStatus (tests s))[i := sauceJobStatus (tests s ! i) @ [b]]" by simp
  have "sauceJobStatus (tests (testComplete r i b s) ! i) =
      map sauceJobStatus (tests (testComplete r i b s)) ! i"
    using i len by simp
  also have "\<dots> = (map sauceJobStatus (tests s))[i := sauceJobStatus (tests s ! i) @ [b]] ! i"
    by (simp only: eq)
  also have "\<dots> = sauceJobStatus (tests s ! i) @ [b]" using i by simp
  finally show ?thesis .
qed

lemma nth_tests_upd_test:
  "j < length (tests s) \<Longrightarrow>
   tests (upd_test i g s) ! j = (if i = j then g (tests s ! j) else tests s ! j)"
  by (simp add: upd_test_def nth_list_update_any)

lemma allowZeroAssertions_basic [simp]:
  "allowZeroAssertions (upd_test i g s) = allowZeroAssertions s"
  "allowZeroAssertions (console_log x s) = allowZeroAssertions s"
  by (simp_all add: basic_defs)

lemma checkTestResults_callback_status:
  assumes "i < length (tests s)"
  shows "sauceJobStatus (tests (checkTestResults_callback r i None [passed, failed, totl] s) ! i) =
           sauceJobStatus (tests s ! i) @
             [allTestsPassed (allowZeroAssertions s) (JStr passed) (JStr failed) (JStr totl)]"
  using assms
  by (simp add: checkTestResults_callback_def Let_def testComplete_status nth_tests_upd_test
      element_def)

lemma scraper_report:
  assumes "i < length (tests s)" and "scraper (tests s ! i) = Reading [passed, failed]"
    and "exitCode s = None" and "uncaught s = None"
  shows "sauceJobStatus (tests (step r (TextReply i (Inr totl)) s) ! i) =
           sauceJobStatus (tests s ! i) @
             [allTestsPassed (allowZeroAssertions s) (JStr passed) (JStr failed) (JStr totl)]"
  using assms
  by (simp add: step_def text_callback_def checkTestResults_callback_status)

lemma upd_test_scraper_twice:
  "upd_test i (\<lambda>t. t\<lparr>scraper := x\<rparr>) (upd_test i (\<lambda>t. t\<lparr>scraper := y\<rparr>) s) =
   upd_test i (\<lambda>t. t\<lparr>scraper := x\<rparr>) s"
  by (cases "i < length (tests s)") (simp_all add: upd_test_def list_update_beyond)

lemma scraper_upd_test:
  "i < length (tests s) \<Longrightarrow> scraper (tests (upd_test i (\<lambda>t. t\<lparr>scraper := x\<rparr>) s) ! i) = x"
  by (simp add: upd_test_def)

lemma uncaught_upd_test [simp]: "uncaught (upd_test i g s) = uncaught s"
  by (simp add: upd_test_def)

lemma scraper_first_reads:
  assumes "i < length (tests s)" and "scraper (tests s ! i) = Waiting []"
    and "exitCode s = None" and "uncaught s = None"
  shows "exec r [WaitReply i (Inr a), TextReply i (Inr passed), WaitReply i (Inr b),
                 TextReply i (Inr failed), WaitReply i (Inr c)] s =
         upd_test i (\<lambda>t. t\<lparr>scraper := Reading [passed, failed]\<rparr>) s"
  using assms
  by (simp add: step_def waitForElements_callback_def text_callback_def scraper_upd_test
      upd_test_scraper_twice)

text \<open>
  Claim C1. When the three counters are read in turn (passed, failed, total) and every
  read succeeds, the outcome the task reports is true exactly when the passed text equals
  the total text, the failed text is the string 0, and the total text is not the string 0
  or zero assertions are allowed. The texts are compared as strings.
\<close>

theorem scraper_decision:
  assumes "i < length (tests s)" and "scraper (tests s ! i) = Waiting []"
    and "exitCode s = None" and "uncaught s = None"
  shows "sauceJobStatus (tests (exec r [WaitReply i (Inr a), TextReply i (Inr passed),
            WaitReply i (Inr b), TextReply i (Inr failed),
            WaitReply i (Inr c), TextReply i (Inr totl)] s) ! i) =
         sauceJobStatus (tests s ! i) @
           [passed = totl \<and> failed = ''0'' \<and> (totl \<noteq> ''0'' \<or> allowZeroAssertions s)]"
proof -
  let ?s5 = "upd_test i (\<lambda>t. t\<lparr>scraper := Reading [passed, failed]\<rparr>) s"
  have split: "exec r [WaitReply i (Inr a), TextReply i (Inr passed), WaitReply i (Inr b),
      TextReply i (Inr failed), WaitReply i (Inr c), TextReply i (Inr totl)] s =
      step r (TextReply i (Inr totl))
        (exec r [WaitReply i (Inr a), TextReply i (Inr passed), WaitReply i (Inr b),
           TextReply i (Inr failed), WaitReply i (Inr c)] s)"
    by simp
  have five: "exec r [WaitReply i (Inr a), TextReply i (Inr passed), WaitReply i (Inr b),
      TextReply i (Inr failed), WaitReply i (Inr c)] s = ?s5"
    by (rule scraper_first_reads [OF assms])
  have "sauceJobStatus (tests (step r (TextReply i (Inr totl)) ?s5) ! i) =
      sauceJobStatus (tests ?s5 ! i) @
        [allTestsPassed (allowZeroAssertions ?s5) (JStr passed) (JStr failed) (JStr totl)]"
    using assms by (intro scraper_report) (simp_all add: scraper_upd_test)
  also have "sauceJobStatus (tests ?s5 ! i) = sauceJobStatus (tests s ! i)"
    using assms(1) by (simp add: upd_test_def)
  finally show ?thesis
    by (simp only: split five) (simp add: allTestsPassed_def)
qed

text \<open>The theorem at a task that reads 0, 0 and 0 where zero assertions are not allowed,
  with the four cases the specification lists and two pairs of texts that are equal as
  numbers and differ as strings.\<close>

theorem scraper_decision_witness:
  "0 < length (tests (exec Index_js [InitReply 0 (Inr 10)]
        (module_exports Index_js example_env (example_config (Some False) None None) module_state))) \<and>
   sauceJobStatus (tests (exec Index_js (example_reads 0 ''0'' ''0'' ''0'')
      (exec Index_js [InitReply 0 (Inr 10)]
        (module_exports Index_js example_env (example_config (Some False) None None) module_state))) ! 0) =
     [False] \<and>
   allTestsPassed False (JStr ''5'') (JStr ''0'') (JStr ''5'') \<and>
   \<not> allTestsPassed False (JStr ''0'') (JStr ''0'') (JStr ''0'') \<and>
   allTestsPassed True (JStr ''0'') (JStr ''0'') (JStr ''0'') \<and>
   \<not> allTestsPassed False (JStr ''4'') (JStr ''1'') (JStr ''5'') \<and>
   \<not> allTestsPassed True (JStr ''05'') (JStr ''0'') (JStr ''5'') \<and>
   \<not> allTestsPassed True (JStr ''5'') (JStr ''00'') (JStr ''5'')"
proof -
  let ?s = "exec Index_js [InitReply 0 (Inr 10)]
        (module_exports Index_js example_env (example_config (Some False) None None) module_state)"
  have h1: "0 < length (tests ?s)" by code_simp
  have h2: "scraper (tests ?s ! 0) = Waiting []" by code_simp
  have h3: "exitCode ?s = None" by code_simp
  have h4: "uncaught ?s = None" by code_simp
  have h5: "sauceJobStatus (tests ?s ! 0) = []" by code_simp
  have h6: "allowZeroAssertions ?s = False" by code_simp
  have "sauceJobStatus (tests (exec Index_js (example_reads 0 ''0'' ''0'' ''0'') ?s) ! 0) = [False]"
    using scraper_decision [OF h1 h2 h3 h4, of Index_js 0 "''0''" 1 "''0''" 2 "''0''"]
    by (simp only: example_reads_def h5 h6) simp
  moreover have "allTestsPassed False (JStr ''5'') (JStr ''0'') (JStr ''5'') \<and>
     \<not> allTestsPassed False (JStr ''0'') (JStr ''0'') (JStr ''0'') \<and>
     allTestsPassed True (JStr ''0'') (JStr ''0'') (JStr ''0'') \<and>
     \<not> allTestsPassed False (JStr ''4'') (JStr ''1'') (JStr ''5'') \<and>
     \<not> allTestsPassed True (JStr ''05'') (JStr ''0'') (JStr ''5'') \<and>
     \<not> allTestsPassed True (JStr ''5'') (JStr ''00'') (JStr ''5'')"
    by (simp add: allTestsPassed_def)
  ultimately show ?thesis using h1 by blast
qed

text \<open>
  Claim C10. When the configuration leaves out \<^verbatim>\<open>zeroAssertionsPass\<close>, zero assertions are
  allowed in every state of the run, and a task whose counters read 0, 0 and 0 reports
  true; when the configuration gives a value, that value is the policy in every state of
  the run and is what such a task reports.
\<close>

theorem zeroAssertionsPass_default:
  assumes "s = exec r evs (module_exports r e cfg module_state)"
    and "i < length (tests s)" and "scraper (tests s ! i) = Reading [''0'', ''0'']"
    and "exitCode s = None" and "uncaught s = None"
  shows "allowZeroAssertions s = (case zeroAssertionsPass cfg of None \<Rightarrow> True | Some b \<Rightarrow> b) \<and>
         sauceJobStatus (tests (step r (TextReply i (Inr ''0'')) s) ! i) =
           sauceJobStatus (tests s ! i) @ [case zeroAssertionsPass cfg of None \<Rightarrow> True | Some b \<Rightarrow> b]"
proof -
  have a: "allowZeroAssertions s = (case zeroAssertionsPass cfg of None \<Rightarrow> True | Some b \<Rightarrow> b)"
    unfolding assms(1)
    by (simp add: exec_static allowZeroAssertions_module_exports module_state_def
        split: option.splits)
  have z: "allTestsPassed (allowZeroAssertions s) (JStr ''0'') (JStr ''0'') (JStr ''0'') =
      allowZeroAssertions s"
    by (simp add: allTestsPassed_def)
  have st: "sauceJobStatus (tests (step r (TextReply i (Inr ''0'')) s) ! i) =
      sauceJobStatus (tests s ! i) @ [allowZeroAssertions s]"
    using scraper_report [OF assms(2-5), of r "''0''"] unfolding z .
  show ?thesis
  proof (intro conjI)
    show "allowZeroAssertions s = (case zeroAssertionsPass cfg of None \<Rightarrow> True | Some b \<Rightarrow> b)"
      by (rule a)
    show "sauceJobStatus (tests (step r (TextReply i (Inr ''0'')) s) ! i) =
        sauceJobStatus (tests s ! i) @ [case zeroAssertionsPass cfg of None \<Rightarrow> True | Some b \<Rightarrow> b]"
      by (rule st [unfolded a])
  qed
qed

text \<open>The theorem at a configuration without the option, in the state in which the first
  task is about to read its third counter.\<close>

theorem zeroAssertionsPass_default_witness:
  "scraper (tests (exec Part_000
      [InitReply 0 (Inr 10), WaitReply 0 (Inr 0), TextReply 0 (Inr ''0''), WaitReply 0 (Inr 1),
       TextReply 0 (Inr ''0''), WaitReply 0 (Inr 2)]
      (module_exports Part_000 example_env (example_config None None None) module_state)) ! 0) =
     Reading [''0'', ''0''] \<and>
   sauceJobStatus (tests (step Part_000 (TextReply 0 (Inr ''0'')) (exec Part_000
      [InitReply 0 (Inr 10), WaitReply 0 (Inr 0), TextReply 0 (Inr ''0''), WaitReply 0 (Inr 1),
       TextReply 0 (Inr ''0''), WaitReply 0 (Inr 2)]
      (module_exports Part_000 example_env (example_config None None None) module_state))) ! 0) = [True]"
proof -
  let ?evs = "[InitReply 0 (Inr 10), WaitReply 0 (Inr 0), TextReply 0 (Inr ''0''), WaitReply 0 (Inr 1),
       TextReply 0 (Inr ''0''), WaitReply 0 (Inr 2)]"
  let ?s = "exec Part_000 ?evs
      (module_exports Part_000 example_env (example_config None None None) module_state)"
  have h1: "0 < length (tests ?s)" by code_simp
  have h2: "scraper (tests ?s ! 0) = Reading [''0'', ''0'']" by code_simp
  have h3: "exitCode ?s = None" by code_simp
  have h4: "uncaught ?s = None" by code_simp
  have h5: "sauceJobStatus (tests ?s ! 0) = []" by code_simp
  have h6: "zeroAssertionsPass (example_config None None None) = None" by code_simp
  from zeroAssertionsPass_default [OF refl h1 h2 h3 h4]
  have "sauceJobStatus (tests (step Part_000 (TextReply 0 (Inr ''0'')) ?s) ! 0) = [True]"
    by (simp only: h5 h6) simp
  with h2 show ?thesis by blast
qed

section \<open>The job status poller\<close>

lemma cb_effects:
  assumes "i < length (tests s)"
  shows "cbCalls (tests (cb i err s) ! i) = cbCalls (tests s ! i) @ [err] \<and>
         showJobPending (tests (cb i err s) ! i) = showJobPending (tests s ! i) \<and>
         (\<forall>h. (h, JobTimer j) \<in> set (timers (cb i err s)) \<longrightarrow> (h, JobTimer j) \<in> set (timers s))"
  using assms unfolding cb_def basic_defs
  by (auto simp: nth_list_update_any Let_def split: mode.splits)

lemma testComplete_effects:
  assumes "i < length (tests s)"
  shows "cbCalls (tests (testComplete r i b s) ! i) = cbCalls (tests s ! i) @ [None] \<and>
         showJobPending (tests (testComplete r i b s) ! i) = showJobPending (tests s ! i) \<and>
         (\<forall>h. (h, JobTimer j) \<in> set (timers (testComplete r i b s)) \<longrightarrow> (h, JobTimer j) \<in> set (timers s))"
proof -
  let ?s1 = "case jobTimeoutId (tests s ! i) of
               None \<Rightarrow> s
             | Some h \<Rightarrow>
                 let s = clearTimeout h s
                 in if r = Part_000 then upd_test i (\<lambda>t. t\<lparr>jobTimeoutId := None\<rparr>) s else s"
  let ?s4 = "(upd_test i (\<lambda>t. t\<lparr>quits := Suc (quits t)\<rparr>)
               (upd_test i (\<lambda>t. t\<lparr>sauceJobStatus := sauceJobStatus t @ [b]\<rparr>) ?s1))
             \<lparr>allPlatformsPassed :=
                (allPlatformsPassed (upd_test i (\<lambda>t. t\<lparr>quits := Suc (quits t)\<rparr>)
                   (upd_test i (\<lambda>t. t\<lparr>sauceJobStatus := sauceJobStatus t @ [b]\<rparr>) ?s1)) \<and> b)\<rparr>"
  have tc: "testComplete r i b s = cb i None ?s4"
    by (simp add: testComplete_def Let_def)
  have len: "i < length (tests ?s4)"
    using assms by (simp add: basic_defs Let_def split: option.splits)
  have pre: "cbCalls (tests ?s4 ! i) = cbCalls (tests s ! i) \<and>
      showJobPending (tests ?s4 ! i) = showJobPending (tests s ! i) \<and>
      (\<forall>h. (h, JobTimer j) \<in> set (timers ?s4) \<longrightarrow> (h, JobTimer j) \<in> set (timers s))"
    using assms by (auto simp: basic_defs Let_def nth_list_update_any split: option.splits)
  from cb_effects [OF len, of None j] pre show ?thesis
    unfolding tc by auto
qed

text \<open>
  Claim C6, as amended. When the query itself fails, the poller writes the error and
  stops: no timer is set and no query is issued, no outcome is reported and the completion
  callback is not called. When the job carries an error, the task reports the outcome
  false, calls its completion callback and sets no further poll timer. Only an answer
  without error writes the progress mark and sets the timer for the next query.
\<close>

theorem showJob_reply_handling:
  assumes "i < length (tests s)" and "showJobPending (tests s ! i)"
    and "exitCode s = None" and "uncaught s = None"
  shows "stdout (step r (ShowJobReply i (Inl err)) s) = stdout s @ [ShowJobError i err] \<and>
         timers (step r (ShowJobReply i (Inl err)) s) = timers s \<and>
         \<not> showJobPending (tests (step r (ShowJobReply i (Inl err)) s) ! i) \<and>
         allPlatformsPassed (step r (ShowJobReply i (Inl err)) s) = allPlatformsPassed s \<and>
         map sauceJobStatus (tests (step r (ShowJobReply i (Inl err)) s)) = map sauceJobStatus (tests s) \<and>
         map cbCalls (tests (step r (ShowJobReply i (Inl err)) s)) = map cbCalls (tests s) \<and>
         (truthy job_error \<longrightarrow>
            sauceJobStatus (tests (step r (ShowJobReply i (Inr job_error)) s) ! i) =
              sauceJobStatus (tests s ! i) @ [False] \<and>
            cbCalls (tests (step r (ShowJobReply i (Inr job_error)) s) ! i) =
              cbCalls (tests s ! i) @ [None] \<and>
            \<not> allPlatformsPassed (step r (ShowJobReply i (Inr job_error)) s) \<and>
            \<not> showJobPending (tests (step r (ShowJobReply i (Inr job_error)) s) ! i) \<and>
            (\<forall>h. (h, JobTimer i) \<in> set (timers (step r (ShowJobReply i (Inr job_error)) s)) \<longrightarrow>
                 (h, JobTimer i) \<in> set (timers s))) \<and>
         (\<not> truthy job_error \<longrightarrow>
            stdout (step r (ShowJobReply i (Inr job_error)) s) = stdout s @ [PollMark] \<and>
            timers (step r (ShowJobReply i (Inr job_error)) s) = timers s @ [(nextTimer s, JobTimer i)] \<and>
            jobTimeoutId (tests (step r (ShowJobReply i (Inr job_error)) s) ! i) = Some (nextTimer s) \<and>
            allPlatformsPassed (step r (ShowJobReply i (Inr job_error)) s) = allPlatformsPassed s \<and>
            map sauceJobStatus (tests (step r (ShowJobReply i (Inr job_error)) s)) =
              map sauceJobStatus (tests s))"
proof -
  let ?s0 = "upd_test i (\<lambda>t. t\<lparr>showJobPending := False\<rparr>) s"
  have fail: "step r (ShowJobReply i (Inl err)) s = console_log (ShowJobError i err) ?s0"
    using assms by (simp add: step_def showJob_callback_def)
  have a: "stdout (console_log (ShowJobError i err) ?s0) = stdout s @ [ShowJobError i err] \<and>
      timers (console_log (ShowJobError i err) ?s0) = timers s \<and>
      \<not> showJobPending (tests (console_log (ShowJobError i err) ?s0) ! i) \<and>
      allPlatformsPassed (console_log (ShowJobError i err) ?s0) = allPlatformsPassed s \<and>
      map sauceJobStatus (tests (console_log (ShowJobError i err) ?s0)) = map sauceJobStatus (tests s) \<and>
      map cbCalls (tests (console_log (ShowJobError i err) ?s0)) = map cbCalls (tests s)"
    using assms(1) by (simp add: basic_defs map_list_update_same)
  have b: "sauceJobStatus (tests (step r (ShowJobReply i (Inr job_error)) s) ! i) =
              sauceJobStatus (tests s ! i) @ [False] \<and>
            cbCalls (tests (step r (ShowJobReply i (Inr job_error)) s) ! i) =
              cbCalls (tests s ! i) @ [None] \<and>
            \<not> allPlatformsPassed (step r (ShowJobReply i (Inr job_error)) s) \<and>
            \<not> showJobPending (tests (step r (ShowJobReply i (Inr job_error)) s) ! i) \<and>
            (\<forall>h. (h, JobTimer i) \<in> set (timers (step r (ShowJobReply i (Inr job_error)) s)) \<longrightarrow>
                 (h, JobTimer i) \<in> set (timers s))"
    if t: "truthy job_error"
  proof -
    let ?s1 = "console_log (JobError i job_error) ?s0"
    have st: "step r (ShowJobReply i (Inr job_error)) s = testComplete r i False ?s1"
      using assms t by (simp add: step_def showJob_callback_def)
    have len: "i < length (tests ?s1)" using assms(1) by simp
    have pre: "sauceJobStatus (tests ?s1 ! i) = sauceJobStatus (tests s ! i) \<and>
        cbCalls (tests ?s1 ! i) = cbCalls (tests s ! i) \<and>
        \<not> showJobPending (tests ?s1 ! i) \<and> timers ?s1 = timers s"
      using assms(1) by (simp add: basic_defs)
    from testComplete_status [OF len, of r False] testComplete_effects [OF len, of r False i]
      testComplete_outcomes [OF len, of r False] pre
    show ?thesis unfolding st by auto
  qed
  have c: "stdout (step r (ShowJobReply i (Inr job_error)) s) = stdout s @ [PollMark] \<and>
            timers (step r (ShowJobReply i (Inr job_error)) s) = timers s @ [(nextTimer s, JobTimer i)] \<and>
            jobTimeoutId (tests (step r (ShowJobReply i (Inr job_error)) s) ! i) = Some (nextTimer s) \<and>
            allPlatformsPassed (step r (ShowJobReply i (Inr job_error)) s) = allPlatformsPassed s \<and>
            map sauceJobStatus (tests (step r (ShowJobReply i (Inr job_error)) s)) =
              map sauceJobStatus (tests s)"
    if "\<not> truthy job_error"
    using assms that
    by (simp add: step_def showJob_callback_def basic_defs Let_def map_list_update_same)
  from a b c show ?thesis unfolding fail by blast
qed

text \<open>The theorem at the state in which the first task has its session and its first query
  is in flight.\<close>

theorem showJob_reply_handling_witness:
  "showJobPending (tests (exec Index_js [InitReply 0 (Inr 10)]
      (module_exports Index_js example_env (example_config None None None) module_state)) ! 0) \<and>
   stdout (step Index_js (ShowJobReply 0 (Inl (Failure ''ETIMEDOUT''))) (exec Index_js [InitReply 0 (Inr 10)]
      (module_exports Index_js example_env (example_config None None None) module_state))) =
     [KeepAliveMark, JobUrl 0 10, ShowJobError 0 (Failure ''ETIMEDOUT'')] \<and>
   timers (step Index_js (ShowJobReply 0 (Inl (Failure ''ETIMEDOUT''))) (exec Index_js [InitReply 0 (Inr 10)]
      (module_exports Index_js example_env (example_config None None None) module_state))) = [] \<and>
   sauceJobStatus (tests (step Index_js (ShowJobReply 0 (Inr (JStr ''Test exceeded maximum duration'')))
      (exec Index_js [InitReply 0 (Inr 10)]
        (module_exports Index_js example_env (example_config None None None) module_state))) ! 0) = [False]"
proof -
  let ?s = "exec Index_js [InitReply 0 (Inr 10)]
      (module_exports Index_js example_env (example_config None None None) module_state)"
  have h1: "0 < length (tests ?s)" by code_simp
  have h2: "showJobPending (tests ?s ! 0)" by code_simp
  have h3: "exitCode ?s = None" by code_simp
  have h4: "uncaught ?s = None" by code_simp
  have v1: "stdout ?s = [KeepAliveMark, JobUrl 0 10]" by code_simp
  have v2: "timers ?s = []" by code_simp
  have v3: "sauceJobStatus (tests ?s ! 0) = []" by code_simp
  have t: "truthy (JStr ''Test exceeded maximum duration'')" by simp
  from showJob_reply_handling [OF h1 h2 h3 h4, of Index_js "Failure ''ETIMEDOUT''"
      "JStr ''Test exceeded maximum duration''"] t
  have "stdout (step Index_js (ShowJobReply 0 (Inl (Failure ''ETIMEDOUT''))) ?s) =
          stdout ?s @ [ShowJobError 0 (Failure ''ETIMEDOUT'')]"
    and "timers (step Index_js (ShowJobReply 0 (Inl (Failure ''ETIMEDOUT''))) ?s) = timers ?s"
    and "sauceJobStatus (tests (step Index_js (ShowJobReply 0 (Inr (JStr ''Test exceeded maximum duration''))) ?s) ! 0) =
          sauceJobStatus (tests ?s ! 0) @ [False]"
    by blast+
  then show ?thesis using h2 by (simp only: v1 v2 v3) simp
qed

text \<open>Claim C6 as stated fails: after a query that failed the poller is not armed again, in
  either revision, while after an answer without error it is.\<close>

theorem showJob_query_error_counterexample:
  "poller_armed 0 (exec Index_js [InitReply 0 (Inr 10)]
      (module_exports Index_js example_env (example_config None None None) module_state)) \<and>
   \<not> poller_armed 0 (exec Index_js [InitReply 0 (Inr 10), ShowJobReply 0 (Inl (Failure ''ETIMEDOUT''))]
      (module_exports Index_js example_env (example_config None None None) module_state)) \<and>
   \<not> poller_armed 0 (exec Part_000 [InitReply 0 (Inr 10), ShowJobReply 0 (Inl (Failure ''ETIMEDOUT''))]
      (module_exports Part_000 example_env (example_config None None None) module_state)) \<and>
   poller_armed 0 (exec Index_js [InitReply 0 (Inr 10), ShowJobReply 0 (Inr JUndefined)]
      (module_exports Index_js example_env (example_config None None None) module_state))"
  by code_simp

section \<open>Where the code departs from its intent\<close>

text \<open>
  Claim C3 does not hold. In \<^verbatim>\<open>part_000\<close> a stale element makes \<^verbatim>\<open>getElementText\<close> call the
  task's completion callback with \<^verbatim>\<open>RETRY_ERROR\<close>: the task reports no outcome, the series
  ends without starting the second platform, and the process exits with code 0. In
  \<^verbatim>\<open>src/index.js\<close> a job error followed by a failed wait makes the task call its completion
  callback twice.
\<close>

theorem completion_callback_violations:
  "cbCalls (tests (exec Part_000
      [InitReply 0 (Inr 10), WaitReply 0 (Inr 0), TextReply 0 (Inl StaleElementReference)]
      (module_exports Part_000 example_env (example_config None None None) module_state)) ! 0) =
     [Some RETRY_ERROR] \<and>
   sauceJobStatus (tests (exec Part_000
      [InitReply 0 (Inr 10), WaitReply 0 (Inr 0), TextReply 0 (Inl StaleElementReference)]
      (module_exports Part_000 example_env (example_config None None None) module_state)) ! 0) = [] \<and>
   map started (tests (exec Part_000
      [InitReply 0 (Inr 10), WaitReply 0 (Inr 0), TextReply 0 (Inl StaleElementReference), QuitReply]
      (module_exports Part_000 example_env (example_config None None None) module_state))) =
     [True, False] \<and>
   exitCode (exec Part_000
      [InitReply 0 (Inr 10), WaitReply 0 (Inr 0), TextReply 0 (Inl StaleElementReference), QuitReply]
      (module_exports Part_000 example_env (example_config None None None) module_state)) = Some 0 \<and>
   cbCalls (tests (exec Index_js
      [InitReply 0 (Inr 10), ShowJobReply 0 (Inr (JStr ''Test exceeded maximum duration'')),
       WaitReply 0 (Inl (Failure ''session terminated''))]
      (module_exports Index_js example_env (example_config None None None) module_state)) ! 0) =
     [None, None] \<and>
   sauceJobStatus (tests (exec Index_js
      [InitReply 0 (Inr 10), ShowJobReply 0 (Inr (JStr ''Test exceeded maximum duration'')),
       WaitReply 0 (Inl (Failure ''session terminated''))]
      (module_exports Index_js example_env (example_config None None None) module_state)) ! 0) =
     [False, False]"
  by code_simp

text \<open>
  Claim C4 does not hold. In \<^verbatim>\<open>part_000\<close> a stale element at the first read of the counters
  leaves the series abandoned: nothing is read again (later answers change nothing), the
  retry count stays 0, no timer is set, and the run is declared complete. The callback of
  the series would, if it were given \<^verbatim>\<open>RETRY_ERROR\<close>, raise a reference error at the
  misspelt \<^verbatim>\<open>setTImeout\<close> and set no timer either. In \<^verbatim>\<open>src/index.js\<close> there is no retry:
  the stale element is reported as the outcome false.
\<close>

theorem stale_read_is_not_retried:
  "scraper (tests (exec Part_000
      [InitReply 0 (Inr 10), WaitReply 0 (Inr 0), TextReply 0 (Inl StaleElementReference)]
      (module_exports Part_000 example_env (example_config None None None) module_state)) ! 0) =
     Abandoned \<and>
   retryCount (exec Part_000
      [InitReply 0 (Inr 10), WaitReply 0 (Inr 0), TextReply 0 (Inl StaleElementReference)]
      (module_exports Part_000 example_env (example_config None None None) module_state)) = 0 \<and>
   timers (exec Part_000
      [InitReply 0 (Inr 10), WaitReply 0 (Inr 0), TextReply 0 (Inl StaleElementReference)]
      (module_exports Part_000 example_env (example_config None None None) module_state)) = [] \<and>
   stdout (exec Part_000
      [InitReply 0 (Inr 10), WaitReply 0 (Inr 0), TextReply 0 (Inl StaleElementReference)]
      (module_exports Part_000 example_env (example_config None None None) module_state)) =
     [KeepAliveMark, JobUrl 0 10, AllCompleted True] \<and>
   exec Part_000
      [InitReply 0 (Inr 10), WaitReply 0 (Inr 0), TextReply 0 (Inl StaleElementReference),
       WaitReply 0 (Inr 0), TextReply 0 (Inr ''5'')]
      (module_exports Part_000 example_env (example_config None None None) module_state) =
   exec Part_000
      [InitReply 0 (Inr 10), WaitReply 0 (Inr 0), TextReply 0 (Inl StaleElementReference)]
      (module_exports Part_000 example_env (example_config None None None) module_state) \<and>
   uncaught (checkTestResults_callback Part_000 0 (Some RETRY_ERROR) []
      (exec Part_000 [InitReply 0 (Inr 10)]
        (module_exports Part_000 example_env (example_config None None None) module_state))) =
     Some ReferenceError_setTImeout \<and>
   timers (checkTestResults_callback Part_000 0 (Some RETRY_ERROR) []
      (exec Part_000 [InitReply 0 (Inr 10)]
        (module_exports Part_000 example_env (example_config None None None) module_state))) = [] \<and>
   sauceJobStatus (tests (exec Index_js
      [InitReply 0 (Inr 10), WaitReply 0 (Inr 0), TextReply 0 (Inl StaleElementReference)]
      (module_exports Index_js example_env (example_config None None None) module_state)) ! 0) = [False]"
  by code_simp

end
